theory Spec2Isabelle
  imports Main "HOL-Library.Word"
begin

section \<open>The Manus bridge: data model\<close>

text \<open>
  A shallow embedding of \<^verbatim>\<open>bridge.cpp\<close> and \<^verbatim>\<open>bridge.hpp\<close>. Every \<^verbatim>\<open>uint32_t\<close> of the
  source is a 32-bit word, so that \<open>+\<close> wraps as it does in C++. A \<^verbatim>\<open>float\<close> is never
  computed with, only copied, and is kept as its 32-bit pattern.
\<close>

type_synonym u32 = "32 word"
type_synonym float32 = "32 word"

text \<open>
  Modelled from the spec: the SDK header \<^verbatim>\<open>ManusSDKTypes.h\<close> is not part of the sources.
  The types below carry the fields that the bridge reads or writes: a vector of three
  floats, a quaternion of four, a node with its transform, the per-skeleton info
  (device id, node count, publish time), the per-node metadata (node id, side) and the
  stream metadata handed to the callback (skeleton count, publish time).
\<close>

datatype ManusVec3 = ManusVec3 (vec_x: float32) (vec_y: float32) (vec_z: float32)

datatype ManusQuaternion =
  ManusQuaternion (quat_w: float32) (quat_x: float32) (quat_y: float32) (quat_z: float32)

record ManusTransform =
  tf_position :: ManusVec3
  tf_rotation :: ManusQuaternion

record SkeletonNode =
  transform :: ManusTransform

record RawSkeletonInfo =
  gloveId :: u32
  nodesCount :: u32
  publishTime :: "64 word"

record NodeInfo =
  nodeId :: u32
  ni_side :: u32

record SkeletonStreamInfo =
  skeletonsCount :: u32
  stream_publishTime :: "64 word"

datatype SDKReturnCode = SDKReturnCode_Success | SDKReturnCode_Error

text \<open>\<^verbatim>\<open>struct ManusNodePose\<close> of \<^verbatim>\<open>bridge.hpp\<close>.\<close>

record ManusNodePose =
  glove_id :: u32
  node_id :: u32
  side :: u32
  position :: ManusVec3
  orientation :: ManusQuaternion

text \<open>\<^verbatim>\<open>class ClientRawSkeleton\<close> and \<^verbatim>\<open>class ClientRawSkeletonCollection\<close>.\<close>

record ClientRawSkeleton =
  info :: RawSkeletonInfo
  nodes :: "SkeletonNode list"

record ClientRawSkeletonCollection =
  skeletons :: "ClientRawSkeleton list"

text \<open>
  The three SDK calls the bridge makes on skeleton data, as parameters of the model.
  An out-array filled by the SDK is given by the cells the SDK writes
  (\<open>nat \<rightharpoonup> 'a\<close>, index to value); a cell the SDK leaves alone keeps what it held.
  \<^item> \<open>CoreSdk_GetRawSkeletonInfo i info\<close>: the return code and the out-parameter after
    the call, from the skeleton index and the out-parameter before it.
  \<^item> \<open>CoreSdk_GetRawSkeletonData i n\<close>: the return code and the node cells written.
  \<^item> \<open>CoreSdk_GetRawSkeletonNodeInfoArray g n\<close>: the return code and the content of
    the \<open>n\<close>-element metadata array after the call.
\<close>

record SDK =
  CoreSdk_GetRawSkeletonInfo :: "u32 \<Rightarrow> RawSkeletonInfo \<Rightarrow> SDKReturnCode \<times> RawSkeletonInfo"
  CoreSdk_GetRawSkeletonData :: "u32 \<Rightarrow> u32 \<Rightarrow> SDKReturnCode \<times> (nat \<rightharpoonup> SkeletonNode)"
  CoreSdk_GetRawSkeletonNodeInfoArray :: "u32 \<Rightarrow> u32 \<Rightarrow> SDKReturnCode \<times> (nat \<Rightarrow> NodeInfo)"

subsection \<open>Heap, instance and faults\<close>

text \<open>
  Snapshots live on the heap and the bridge holds raw pointers to them. The store maps
  an address to the collection allocated there; \<open>fresh\<close> is the address the next
  \<^verbatim>\<open>new\<close> returns, and \<open>deleted\<close> logs every \<^verbatim>\<open>delete\<close> of a non-null pointer, in
  order, so that a leak (an address still in the store) and a double free (an address
  logged twice) are both visible. A pointer is \<open>addr option\<close>, \<open>None\<close> the null pointer.
  \<open>s_Instance\<close> is the static instance pointer; the one \<open>Bridge\<close> object it points to
  is kept in place of its address.
\<close>

type_synonym addr = nat

record Bridge =
  m_NextRawSkeleton :: "addr option"
  m_RawSkeleton :: "addr option"

record world =
  s_Instance :: "Bridge option"
  heap :: "addr \<rightharpoonup> ClientRawSkeletonCollection"
  fresh :: addr
  deleted :: "addr list"

text \<open>Undefined behaviour of the C++ program, as values of the model.\<close>

datatype fault = ReadOutOfBounds | WriteOutOfBounds | UseAfterFree

definition new_collection :: "ClientRawSkeletonCollection \<Rightarrow> world \<Rightarrow> addr \<times> world" where
  "new_collection c w =
     (fresh w, w\<lparr>heap := (heap w)(fresh w \<mapsto> c), fresh := Suc (fresh w)\<rparr>)"

definition delete_ptr :: "addr option \<Rightarrow> world \<Rightarrow> world" where
  "delete_ptr p w =
     (case p of
        None \<Rightarrow> w
      | Some a \<Rightarrow> w\<lparr>heap := (heap w)(a := None), deleted := deleted w @ [a]\<rparr>)"

text \<open>\<^verbatim>\<open>Bridge::Bridge()\<close> with the member initialisers of the class, and \<^verbatim>\<open>Bridge::~Bridge()\<close>.\<close>

definition Bridge_ctor :: "world \<Rightarrow> world" where
  "Bridge_ctor w = w\<lparr>s_Instance := Some \<lparr>m_NextRawSkeleton = None, m_RawSkeleton = None\<rparr>\<rparr>"

definition Bridge_dtor :: "world \<Rightarrow> world" where
  "Bridge_dtor w = w\<lparr>s_Instance := None\<rparr>"

definition initial_world :: world where
  "initial_world = Bridge_ctor \<lparr>s_Instance = None, heap = Map.empty, fresh = 0, deleted = []\<rparr>"

section \<open>Frame assembly: \<^verbatim>\<open>Bridge::OnRawSkeletonStreamCallback\<close>\<close>

text \<open>Value-initialised elements, as \<^verbatim>\<open>std::vector::resize\<close> creates them.\<close>

definition zero_node :: SkeletonNode where
  "zero_node = \<lparr>transform = \<lparr>tf_position = ManusVec3 0 0 0, tf_rotation = ManusQuaternion 0 0 0 0\<rparr>\<rparr>"

definition zero_skeleton :: ClientRawSkeleton where
  "zero_skeleton = \<lparr>info = \<lparr>gloveId = 0, nodesCount = 0, publishTime = 0\<rparr>, nodes = []\<rparr>"

definition resize :: "'a \<Rightarrow> nat \<Rightarrow> 'a list \<Rightarrow> 'a list" where
  "resize d n xs = take n xs @ replicate (n - length xs) d"

text \<open>The SDK writing into an out-array: the cells it names change, the others stay.\<close>

definition sdk_fill :: "(nat \<rightharpoonup> 'a) \<Rightarrow> 'a list \<Rightarrow> 'a list" where
  "sdk_fill f xs = map (\<lambda>(j, x). case f j of None \<Rightarrow> x | Some v \<Rightarrow> v) (enumerate 0 xs)"

text \<open>
  The body of the loop over the skeletons (lines 326 to 335), on \<^verbatim>\<open>skeletons[i]\<close>. Both
  return codes are dropped, as in the source.
\<close>

definition assemble_skeleton ::
  "SDK \<Rightarrow> SkeletonStreamInfo \<Rightarrow> u32 \<Rightarrow> ClientRawSkeleton \<Rightarrow> ClientRawSkeleton" where
  "assemble_skeleton sdk p i sk =
     (let inf = snd (CoreSdk_GetRawSkeletonInfo sdk i (info sk));
          nds = resize zero_node (unat (nodesCount inf)) (nodes sk);
          inf' = inf\<lparr>publishTime := stream_publishTime p\<rparr>;
          cells = snd (CoreSdk_GetRawSkeletonData sdk i (nodesCount inf'))
      in \<lparr>info = inf', nodes = sdk_fill cells nds\<rparr>)"

function assemble_loop ::
  "SDK \<Rightarrow> SkeletonStreamInfo \<Rightarrow> nat \<Rightarrow> ClientRawSkeleton list \<Rightarrow> ClientRawSkeleton list" where
  "assemble_loop sdk p i sks =
     (if i < unat (skeletonsCount p)
      then assemble_loop sdk p (Suc i) (sks[i := assemble_skeleton sdk p (of_nat i) (sks ! i)])
      else sks)"
  by pat_completeness auto
termination
  by (relation "measure (\<lambda>(sdk, p, i, sks). unat (skeletonsCount p) - i)") auto

declare assemble_loop.simps [simp del]

definition assemble :: "SDK \<Rightarrow> SkeletonStreamInfo \<Rightarrow> ClientRawSkeletonCollection" where
  "assemble sdk p =
     \<lparr>skeletons = assemble_loop sdk p 0 (resize zero_skeleton (unat (skeletonsCount p)) [])\<rparr>"

text \<open>
  The callback. Without an instance it does nothing. Otherwise it allocates the new
  collection, fills it, and under the mutex deletes the pending collection (when there
  is one) and stores the new pointer in \<open>m_NextRawSkeleton\<close>. The mutex makes the last
  three lines atomic with respect to \<open>Poll\<close>; the model runs whole operations one after
  the other.
\<close>

definition OnRawSkeletonStreamCallback :: "SDK \<Rightarrow> SkeletonStreamInfo \<Rightarrow> world \<Rightarrow> world" where
  "OnRawSkeletonStreamCallback sdk p w =
     (case s_Instance w of
        None \<Rightarrow> w
      | Some b \<Rightarrow>
          (let (t_NxtClientRawSkeleton, w1) = new_collection (assemble sdk p) w;
               w2 = (if m_NextRawSkeleton b \<noteq> None then delete_ptr (m_NextRawSkeleton b) w1 else w1)
           in w2\<lparr>s_Instance := Some (b\<lparr>m_NextRawSkeleton := Some t_NxtClientRawSkeleton\<rparr>)\<rparr>))"

section \<open>Claiming and flattening: \<^verbatim>\<open>Bridge::Poll\<close>\<close>

text \<open>The record written for node \<open>j\<close> of a skeleton (lines 232 to 237).\<close>

definition node_pose :: "u32 \<Rightarrow> NodeInfo \<Rightarrow> SkeletonNode \<Rightarrow> ManusNodePose" where
  "node_pose t_GloveId ni node =
     \<lparr>glove_id = t_GloveId, node_id = nodeId ni, side = ni_side ni,
      position = tf_position (transform node), orientation = tf_rotation (transform node)\<rparr>"

text \<open>
  The inner loop, \<^verbatim>\<open>for (j = 0; j < t_NodeCount; j++)\<close>, with \<open>n\<close> the value of
  \<^verbatim>\<open>t_NodeCount\<close>. Reading \<^verbatim>\<open>nodes[j]\<close> past the vector and writing
  \<^verbatim>\<open>buffer[buffer_index]\<close> past the caller's buffer are undefined behaviour in C++ and
  faults here. \<^verbatim>\<open>buffer_index++\<close> is a 32-bit increment.
\<close>

function node_loop ::
  "u32 \<Rightarrow> (nat \<Rightarrow> NodeInfo) \<Rightarrow> SkeletonNode list \<Rightarrow> nat \<Rightarrow> nat \<Rightarrow> ManusNodePose list \<Rightarrow> u32
   \<Rightarrow> fault + (ManusNodePose list \<times> u32)" where
  "node_loop t_GloveId node_info nds n j buffer buffer_index =
     (if j < n then
        (if length nds \<le> j then Inl ReadOutOfBounds
         else if length buffer \<le> unat buffer_index then Inl WriteOutOfBounds
         else node_loop t_GloveId node_info nds n (Suc j)
                (buffer[unat buffer_index := node_pose t_GloveId (node_info j) (nds ! j)])
                (buffer_index + 1))
      else Inr (buffer, buffer_index))"
  by pat_completeness auto
termination
  by (relation "measure (\<lambda>(g, ni, nds, n, j, buffer, bi). n - j)") auto

declare node_loop.simps [simp del]

text \<open>
  The outer loop over the skeletons (lines 212 to 239). The capacity test is the
  32-bit comparison of the source; when it holds the loop is left (\<^verbatim>\<open>break\<close>), when the
  metadata lookup fails the skeleton is passed over (\<^verbatim>\<open>continue\<close>).
\<close>

fun skeleton_loop ::
  "SDK \<Rightarrow> u32 \<Rightarrow> ClientRawSkeleton list \<Rightarrow> ManusNodePose list \<Rightarrow> u32
   \<Rightarrow> fault + (ManusNodePose list \<times> u32)" where
  "skeleton_loop sdk buffer_size [] buffer buffer_index = Inr (buffer, buffer_index)"
| "skeleton_loop sdk buffer_size (sk # rest) buffer buffer_index =
     (let t_GloveId = gloveId (info sk);
          t_NodeCount = nodesCount (info sk)
      in if buffer_index + t_NodeCount > buffer_size then Inr (buffer, buffer_index)
         else (case CoreSdk_GetRawSkeletonNodeInfoArray sdk t_GloveId t_NodeCount of
                 (result, node_info) \<Rightarrow>
                   if result \<noteq> SDKReturnCode_Success
                   then skeleton_loop sdk buffer_size rest buffer buffer_index
                   else (case node_loop t_GloveId node_info (nodes sk) (unat t_NodeCount) 0
                                buffer buffer_index of
                           Inl f \<Rightarrow> Inl f
                         | Inr (buffer', buffer_index') \<Rightarrow>
                             skeleton_loop sdk buffer_size rest buffer' buffer_index')))"

text \<open>
  Lines 201 to 241, on the collection that \<open>m_RawSkeleton\<close> points to after the swap:
  the buffer after the call and the value left in \<open>count\<close>. \<^verbatim>\<open>t_SkeletonCount\<close> is the
  vector's size converted to 32 bits.
\<close>

definition Poll_flatten ::
  "SDK \<Rightarrow> ManusNodePose list \<Rightarrow> u32 \<Rightarrow> ClientRawSkeletonCollection
   \<Rightarrow> fault + (ManusNodePose list \<times> u32)" where
  "Poll_flatten sdk buffer buffer_size c =
     (if length (skeletons c) = 0 then Inr (buffer, 0)
      else (let t_SkeletonCount = (of_nat (length (skeletons c)) :: u32)
            in skeleton_loop sdk buffer_size (take (unat t_SkeletonCount) (skeletons c)) buffer 0))"

text \<open>
  Lines 197 to 199: the retained collection is deleted, the pending one becomes the
  retained one, and the slot is cleared.
\<close>

definition Poll_swap :: "Bridge \<Rightarrow> world \<Rightarrow> world" where
  "Poll_swap b w =
     (let w1 = delete_ptr (m_RawSkeleton b) w
      in w1\<lparr>s_Instance := Some (b\<lparr>m_RawSkeleton := m_NextRawSkeleton b, m_NextRawSkeleton := None\<rparr>)\<rparr>)"

text \<open>What \<open>m_RawSkeleton\<close> points to: nothing, a live collection, or freed memory.\<close>

definition claimed :: "world \<Rightarrow> fault + (addr \<times> ClientRawSkeletonCollection) option" where
  "claimed w =
     (case s_Instance w of
        None \<Rightarrow> Inr None
      | Some b \<Rightarrow>
          (case m_RawSkeleton b of
             None \<Rightarrow> Inr None
           | Some a \<Rightarrow> (case heap w a of None \<Rightarrow> Inl UseAfterFree | Some c \<Rightarrow> Inr (Some (a, c)))))"

text \<open>\<^verbatim>\<open>Bridge::Poll\<close> on the instance \<open>b\<close>: buffer, \<open>count\<close> and world after the call.\<close>

definition Poll ::
  "SDK \<Rightarrow> ManusNodePose list \<Rightarrow> u32 \<Rightarrow> Bridge \<Rightarrow> world
   \<Rightarrow> fault + (ManusNodePose list \<times> u32 \<times> world)" where
  "Poll sdk buffer buffer_size b w =
     (let w' = Poll_swap b w
      in case claimed w' of
           Inl f \<Rightarrow> Inl f
         | Inr None \<Rightarrow> Inr (buffer, 0, w')
         | Inr (Some (a, c)) \<Rightarrow>
             (case Poll_flatten sdk buffer buffer_size c of
                Inl f \<Rightarrow> Inl f
              | Inr (buffer', count) \<Rightarrow> Inr (buffer', count, w')))"

section \<open>The C entry point \<^verbatim>\<open>poll\<close>\<close>

text \<open>
  \<open>buffer\<close> and \<open>count\<close> are pointers: \<open>None\<close> is the null pointer, \<open>Some\<close> carries what
  the pointer refers to. The result is the status code with the two referents and the
  world after the call.
\<close>

definition poll ::
  "SDK \<Rightarrow> ManusNodePose list option \<Rightarrow> u32 \<Rightarrow> u32 option \<Rightarrow> world
   \<Rightarrow> fault + (int \<times> ManusNodePose list option \<times> u32 option \<times> world)" where
  "poll sdk buffer buffer_size count w =
     (case s_Instance w of
        None \<Rightarrow> Inr (- 1, buffer, count, w)
      | Some b \<Rightarrow>
          (case (buffer, count) of
             (Some buf, Some c) \<Rightarrow>
               (case Poll sdk buf buffer_size b w of
                  Inl f \<Rightarrow> Inl f
                | Inr (buf', actual_count, w') \<Rightarrow>
                    Inr (if actual_count = 0 then - 2 else 0, Some buf', Some actual_count, w'))
           | _ \<Rightarrow> Inr (- 3, buffer, count, w)))"

section \<open>Notions used to state the properties\<close>

subsection \<open>Publishing and claiming\<close>

text \<open>
  A run of the slot: the producer fires the callback (\<open>publish\<close>) and the consumer
  polls (\<open>claim\<close>). The flattening part of \<open>Poll\<close> touches neither the pointers nor
  the heap, so a claim is the swap of lines 197 to 199 followed by a look at what
  \<open>m_RawSkeleton\<close> now points to. \<open>slot_run\<close> lists what the claims yield, in order.
\<close>

datatype slot_op = publish SDK SkeletonStreamInfo | claim

fun slot_step :: "slot_op \<Rightarrow> world \<Rightarrow> world" where
  "slot_step (publish sdk p) w = OnRawSkeletonStreamCallback sdk p w"
| "slot_step claim w = (case s_Instance w of None \<Rightarrow> w | Some b \<Rightarrow> Poll_swap b w)"

fun slot_exec :: "slot_op list \<Rightarrow> world \<Rightarrow> world" where
  "slot_exec [] w = w"
| "slot_exec (a # ops) w = slot_exec ops (slot_step a w)"





subsection \<open>Flattening\<close>

text \<open>
  A skeleton as the callback builds it has as many nodes as its info declares, and a
  collection has fewer than \<open>2 ^ 32\<close> skeletons (its vector is sized from a 32-bit count).
\<close>

definition wf_skeleton :: "ClientRawSkeleton \<Rightarrow> bool" where
  "wf_skeleton sk = (length (nodes sk) = unat (nodesCount (info sk)))"

definition wf_collection :: "ClientRawSkeletonCollection \<Rightarrow> bool" where
  "wf_collection c = (length (skeletons c) < 2 ^ 32 \<and> list_all wf_skeleton (skeletons c))"

definition lookup_ok :: "SDK \<Rightarrow> ClientRawSkeleton \<Rightarrow> bool" where
  "lookup_ok sdk sk =
     (fst (CoreSdk_GetRawSkeletonNodeInfoArray sdk (gloveId (info sk)) (nodesCount (info sk)))
        = SDKReturnCode_Success)"

text \<open>The records of one skeleton, in node order, with the metadata the lookup gives.\<close>

definition skeleton_poses :: "SDK \<Rightarrow> ClientRawSkeleton \<Rightarrow> ManusNodePose list" where
  "skeleton_poses sdk sk =
     map (\<lambda>(j, nd). node_pose (gloveId (info sk))
                      (snd (CoreSdk_GetRawSkeletonNodeInfoArray sdk (gloveId (info sk))
                              (nodesCount (info sk))) j) nd)
         (enumerate 0 (nodes sk))"

definition total_nodes :: "ClientRawSkeleton list \<Rightarrow> nat" where
  "total_nodes sks = sum_list (map (\<lambda>sk. unat (nodesCount (info sk))) sks)"

text \<open>
  In the words of the specification (section 4.3): walk the skeletons in order with
  \<open>written\<close> records so far; when \<open>written\<close> plus the skeleton's node count exceeds
  the capacity \<open>C\<close>, stop; when the skeleton's metadata lookup fails, pass it over;
  otherwise emit its records. The sums are sums of natural numbers.
\<close>

fun flatten_spec :: "SDK \<Rightarrow> nat \<Rightarrow> ClientRawSkeleton list \<Rightarrow> nat \<Rightarrow> ManusNodePose list" where
  "flatten_spec sdk C [] written = []"
| "flatten_spec sdk C (sk # rest) written =
     (if written + unat (nodesCount (info sk)) > C then []
      else if lookup_ok sdk sk
      then skeleton_poses sdk sk @ flatten_spec sdk C rest (written + unat (nodesCount (info sk)))
      else flatten_spec sdk C rest written)"

subsection \<open>Polling again\<close>

text \<open>
  \<open>n\<close> further calls of \<open>poll\<close> with valid arguments and no callback in between, each
  on the buffer the previous one left: the status, buffer and count of every call.
\<close>

fun poll_repeat ::
  "SDK \<Rightarrow> ManusNodePose list \<Rightarrow> u32 \<Rightarrow> nat \<Rightarrow> world
   \<Rightarrow> (fault + (int \<times> ManusNodePose list option \<times> u32 option)) list" where
  "poll_repeat sdk buf buffer_size 0 w = []"
| "poll_repeat sdk buf buffer_size (Suc n) w =
     (case poll sdk (Some buf) buffer_size (Some 0) w of
        Inl f \<Rightarrow> [Inl f]
      | Inr (st, None, cnt, w') \<Rightarrow> [Inr (st, None, cnt)]
      | Inr (st, Some buf', cnt, w') \<Rightarrow> Inr (st, Some buf', cnt) # poll_repeat sdk buf' buffer_size n w')"

subsection \<open>Invariants of the slot\<close>


text \<open>
  \<open>heap_accounted w\<close>: an instance exists, the live collections are exactly the ones
  the two member pointers refer to, the two pointers differ unless the slot is null,
  no address was deleted twice, no deleted address is live, and every address handed
  out so far is either deleted or live.
\<close>

definition heap_accounted :: "world \<Rightarrow> bool" where
  "heap_accounted w =
     (case s_Instance w of
        None \<Rightarrow> False
      | Some b \<Rightarrow>
          (\<forall>a. a \<in> dom (heap w) \<longleftrightarrow> m_NextRawSkeleton b = Some a \<or> m_RawSkeleton b = Some a) \<and>
          (m_NextRawSkeleton b = None \<or> m_NextRawSkeleton b \<noteq> m_RawSkeleton b) \<and>
          distinct (deleted w) \<and>
          (\<forall>a. a \<in> set (deleted w) \<longrightarrow> a \<notin> dom (heap w)) \<and>
          (\<forall>a. a < fresh w \<longleftrightarrow> a \<in> set (deleted w) \<or> a \<in> dom (heap w)))"

subsection \<open>Sample inputs\<close>

text \<open>
  A source whose skeleton \<open>i\<close> is glove \<open>i + 1\<close> with \<open>2 * i + 3\<close> nodes (3 nodes, then
  5), node \<open>j\<close> at position \<open>(j, j, j)\<close>, and whose metadata lookup fails for glove 9
  only.
\<close>

definition sample_node :: "nat \<Rightarrow> SkeletonNode" where
  "sample_node j =
     \<lparr>transform = \<lparr>tf_position = ManusVec3 (of_nat j) (of_nat j) (of_nat j),
                   tf_rotation = ManusQuaternion 1 0 0 0\<rparr>\<rparr>"

definition sample_sdk :: SDK where
  "sample_sdk =
     \<lparr>CoreSdk_GetRawSkeletonInfo =
        (\<lambda>i inf. (SDKReturnCode_Success, inf\<lparr>gloveId := i + 1, nodesCount := 2 * i + 3\<rparr>)),
      CoreSdk_GetRawSkeletonData = (\<lambda>i n. (SDKReturnCode_Success, (\<lambda>j. Some (sample_node j)))),
      CoreSdk_GetRawSkeletonNodeInfoArray =
        (\<lambda>g n. (if g = 9 then SDKReturnCode_Error else SDKReturnCode_Success,
                 (\<lambda>j. \<lparr>nodeId = of_nat j, ni_side = g\<rparr>)))\<rparr>"

definition sample_skeleton :: "u32 \<Rightarrow> nat \<Rightarrow> ClientRawSkeleton" where
  "sample_skeleton g n =
     \<lparr>info = \<lparr>gloveId = g, nodesCount = of_nat n, publishTime = 0\<rparr>,
      nodes = map sample_node [0..<n]\<rparr>"

definition sample_pose :: "u32 \<Rightarrow> nat \<Rightarrow> ManusNodePose" where
  "sample_pose g j =
     \<lparr>glove_id = g, node_id = of_nat j, side = g,
      position = ManusVec3 (of_nat j) (of_nat j) (of_nat j),
      orientation = ManusQuaternion 1 0 0 0\<rparr>"

definition blank_pose :: ManusNodePose where
  "blank_pose =
     \<lparr>glove_id = 0, node_id = 0, side = 0, position = ManusVec3 0 0 0,
      orientation = ManusQuaternion 0 0 0 0\<rparr>"

definition no_instance :: world where
  "no_instance = \<lparr>s_Instance = None, heap = Map.empty, fresh = 0, deleted = []\<rparr>"

text \<open>
  A skeleton declaring \<open>2 ^ 32 - 1\<close> nodes and holding as many, and a world in which
  the callback has published the collection \<open>c\<close> at address 0 and nothing was claimed
  yet.
\<close>

definition giant_skeleton :: "u32 \<Rightarrow> ClientRawSkeleton" where
  "giant_skeleton g =
     \<lparr>info = \<lparr>gloveId = g, nodesCount = 4294967295, publishTime = 0\<rparr>,
      nodes = replicate 4294967295 zero_node\<rparr>"

definition pending_world :: "ClientRawSkeletonCollection \<Rightarrow> world" where
  "pending_world c =
     \<lparr>s_Instance = Some \<lparr>m_NextRawSkeleton = Some 0, m_RawSkeleton = None\<rparr>,
      heap = [0 \<mapsto> c], fresh = 1, deleted = []\<rparr>"

text \<open>
  A source whose fetches for skeleton 0 fail and write nothing, and which is the sample
  source for every other skeleton; and a source turned into one that reports success
  for every fetch while writing the same data.
\<close>

definition flaky_sdk :: SDK where
  "flaky_sdk =
     \<lparr>CoreSdk_GetRawSkeletonInfo =
        (\<lambda>i inf. if i = 0 then (SDKReturnCode_Error, inf)
                  else (SDKReturnCode_Success, inf\<lparr>gloveId := i + 1, nodesCount := 2 * i + 3\<rparr>)),
      CoreSdk_GetRawSkeletonData =
        (\<lambda>i n. if i = 0 then (SDKReturnCode_Error, Map.empty)
                else (SDKReturnCode_Success, (\<lambda>j. Some (sample_node j)))),
      CoreSdk_GetRawSkeletonNodeInfoArray = CoreSdk_GetRawSkeletonNodeInfoArray sample_sdk\<rparr>"

definition report_success :: "SDK \<Rightarrow> SDK" where
  "report_success sdk =
     sdk\<lparr>CoreSdk_GetRawSkeletonInfo :=
           (\<lambda>i inf. (SDKReturnCode_Success, snd (CoreSdk_GetRawSkeletonInfo sdk i inf))),
         CoreSdk_GetRawSkeletonData :=
           (\<lambda>i n. (SDKReturnCode_Success, snd (CoreSdk_GetRawSkeletonData sdk i n)))\<rparr>"

text \<open>An array of \<open>2 ^ 32\<close> blank records, to be passed with a smaller declared capacity.\<close>

definition huge_buffer :: "ManusNodePose list" where
  "huge_buffer = replicate 4294967296 blank_pose"

section \<open>Invalid arguments\<close>

text \<open>
  C9, as stated, at a concrete input: without an instance, \<open>poll\<close> with a null buffer
  answers \<open>-1\<close>, not \<open>-3\<close>, because the instance test comes first.
\<close>

theorem poll_null_buffer_without_instance:
  "poll sample_sdk None 4 (Some 0) no_instance = Inr (- 1, None, Some 0, no_instance)"
  by (simp add: poll_def no_instance_def)

text \<open>
  C9 (amended): for every call of \<open>poll\<close> with a null buffer pointer or a null count
  pointer, the status is \<open>-3\<close> when a bridge instance exists and \<open>-1\<close> when none does;
  in both cases the buffer, the count and the whole bridge state (instance, pointers,
  heap, deletion log) are exactly what they were before the call.
\<close>

theorem poll_invalid_arguments:
  "buffer = None \<or> count = None \<Longrightarrow>
   poll sdk buffer buffer_size count w
     = Inr (if s_Instance w = None then - 1 else - 3, buffer, count, w)"
  by (auto simp: poll_def split: option.splits)

theorem poll_invalid_arguments_witness:
  "((None :: ManusNodePose list option) = None \<or> Some (0 :: u32) = None) \<and>
   poll sample_sdk None 4 (Some 0) initial_world = Inr (- 3, None, Some 0, initial_world)"
  using poll_invalid_arguments [of None "Some 0" sample_sdk 4 initial_world]
  by (simp add: initial_world_def Bridge_ctor_def)

section \<open>Status codes\<close>

lemma Poll_swap_instance:
  "s_Instance (Poll_swap b w)
     = Some \<lparr>m_NextRawSkeleton = None, m_RawSkeleton = m_NextRawSkeleton b\<rparr>"
  by (cases b) (simp add: Poll_swap_def Let_def delete_ptr_def split: option.splits)

lemma Poll_world: "Poll sdk buf bs b w = Inr (buf', n, w') \<Longrightarrow> w' = Poll_swap b w"
  by (auto simp: Poll_def Let_def split: sum.splits option.splits prod.splits)

lemma Poll_empty_slot:
  "m_NextRawSkeleton b = None \<Longrightarrow> Poll sdk buf bs b w = Inr (buf, 0, Poll_swap b w)"
  by (simp add: Poll_def Let_def claimed_def Poll_swap_instance)

lemma poll_empty_slot:
  "s_Instance w = Some b \<Longrightarrow> m_NextRawSkeleton b = None \<Longrightarrow>
   poll sdk (Some buf) bs (Some c) w = Inr (- 2, Some buf, Some 0, Poll_swap b w)"
  by (simp add: poll_def Poll_empty_slot)

lemma poll_pending_world:
  "Poll_flatten sdk buf bs c = Inr (buf', n) \<Longrightarrow>
   poll sdk (Some buf) bs (Some k) (pending_world c)
     = Inr (if n = 0 then - 2 else 0, Some buf', Some n,
            Poll_swap \<lparr>m_NextRawSkeleton = Some 0, m_RawSkeleton = None\<rparr> (pending_world c))"
  by (simp add: poll_def Poll_def pending_world_def Poll_swap_def delete_ptr_def claimed_def Let_def)

lemma sample_flatten_4:
  "Poll_flatten sample_sdk (replicate 4 blank_pose) 4
      \<lparr>skeletons = [sample_skeleton 1 3, sample_skeleton 2 5]\<rparr>
    = Inr ([sample_pose 1 0, sample_pose 1 1, sample_pose 1 2, blank_pose], 3)"
  by code_simp

lemma sample_poll_4:
  "poll sample_sdk (Some (replicate 4 blank_pose)) 4 (Some 0)
      (pending_world \<lparr>skeletons = [sample_skeleton 1 3, sample_skeleton 2 5]\<rparr>)
     = Inr (0, Some [sample_pose 1 0, sample_pose 1 1, sample_pose 1 2, blank_pose], Some 3,
            Poll_swap \<lparr>m_NextRawSkeleton = Some 0, m_RawSkeleton = None\<rparr>
              (pending_world \<lparr>skeletons = [sample_skeleton 1 3, sample_skeleton 2 5]\<rparr>))"
  using poll_pending_world [OF sample_flatten_4, of 0] by simp

text \<open>
  C6, as stated, at two concrete inputs. First: the slot holds a snapshot (one the
  callback published for a stream of zero skeletons), so the slot is not empty, and the
  status is \<open>-2\<close>. Second: after a poll that wrote three records the claimed snapshot
  is still retained at address 0 and the slot is empty; the next poll answers \<open>-2\<close>
  again, not success.
\<close>

theorem poll_no_data_with_snapshot:
  "map_option m_NextRawSkeleton (s_Instance (pending_world \<lparr>skeletons = []\<rparr>)) = Some (Some 0)
   \<and> map_sum id fst (poll sample_sdk (Some [blank_pose]) 1 (Some 0) (pending_world \<lparr>skeletons = []\<rparr>))
       = Inr (- 2)
   \<and> map_option m_RawSkeleton
        (s_Instance (Poll_swap \<lparr>m_NextRawSkeleton = Some 0, m_RawSkeleton = None\<rparr>
           (pending_world \<lparr>skeletons = [sample_skeleton 1 3, sample_skeleton 2 5]\<rparr>)))
       = Some (Some 0)
   \<and> map_sum id fst (poll sample_sdk (Some [blank_pose]) 1 (Some 0)
        (Poll_swap \<lparr>m_NextRawSkeleton = Some 0, m_RawSkeleton = None\<rparr>
           (pending_world \<lparr>skeletons = [sample_skeleton 1 3, sample_skeleton 2 5]\<rparr>)))
       = Inr (- 2)"
proof -
  have a: "Poll_flatten sample_sdk [blank_pose] 1 \<lparr>skeletons = []\<rparr> = Inr ([blank_pose], 0)"
    by (simp add: Poll_flatten_def)
  have b: "poll sample_sdk (Some [blank_pose]) 1 (Some 0)
        (Poll_swap \<lparr>m_NextRawSkeleton = Some 0, m_RawSkeleton = None\<rparr> (pending_world c))
      = Inr (- 2, Some [blank_pose], Some 0,
          Poll_swap \<lparr>m_NextRawSkeleton = None, m_RawSkeleton = Some 0\<rparr>
            (Poll_swap \<lparr>m_NextRawSkeleton = Some 0, m_RawSkeleton = None\<rparr> (pending_world c)))" for c
    by (rule poll_empty_slot) (simp_all add: Poll_swap_instance)
  show ?thesis
    by (simp add: poll_pending_world [OF a] b Poll_swap_instance) (simp add: pending_world_def)
qed

text \<open>
  C6 (amended): for every poll call with an initialized bridge and valid arguments that
  returns, the count is the written count of \<open>Poll\<close>, and the status is \<open>-2\<close> exactly
  when that count is 0 and \<open>0\<close> otherwise. The count is 0 whenever the slot is empty,
  whether or not a previous snapshot is retained (the retained one is deleted, never
  flattened again); it is also 0 for a claimed snapshot from which nothing is written.
\<close>

theorem poll_status:
  assumes "s_Instance w = Some b"
      and "poll sdk (Some buf) buffer_size (Some c) w = Inr (st, buf', cnt, w')"
  shows "\<exists>buf'' n. Poll sdk buf buffer_size b w = Inr (buf'', n, w') \<and> buf' = Some buf'' \<and>
           cnt = Some n \<and> (st = - 2 \<longleftrightarrow> n = 0) \<and> (st = 0 \<longleftrightarrow> n \<noteq> 0) \<and>
           (m_NextRawSkeleton b = None \<longrightarrow> n = 0)"
proof -
  from assms obtain buf'' n where
    P: "Poll sdk buf buffer_size b w = Inr (buf'', n, w')" and
    e: "buf' = Some buf''" "cnt = Some n" "st = (if n = 0 then - 2 else 0)"
    by (auto simp: poll_def split: sum.splits prod.splits)
  have "m_NextRawSkeleton b = None \<longrightarrow> n = 0"
    using P by (auto simp: Poll_empty_slot)
  with P e show ?thesis by auto
qed

theorem poll_status_witness:
  "s_Instance (pending_world \<lparr>skeletons = [sample_skeleton 1 3, sample_skeleton 2 5]\<rparr>)
     = Some \<lparr>m_NextRawSkeleton = Some 0, m_RawSkeleton = None\<rparr>
   \<and> poll sample_sdk (Some (replicate 4 blank_pose)) 4 (Some 0)
        (pending_world \<lparr>skeletons = [sample_skeleton 1 3, sample_skeleton 2 5]\<rparr>)
     = Inr (0, Some [sample_pose 1 0, sample_pose 1 1, sample_pose 1 2, blank_pose], Some 3,
            Poll_swap \<lparr>m_NextRawSkeleton = Some 0, m_RawSkeleton = None\<rparr>
              (pending_world \<lparr>skeletons = [sample_skeleton 1 3, sample_skeleton 2 5]\<rparr>))
   \<and> Poll sample_sdk (replicate 4 blank_pose) 4 \<lparr>m_NextRawSkeleton = Some 0, m_RawSkeleton = None\<rparr>
        (pending_world \<lparr>skeletons = [sample_skeleton 1 3, sample_skeleton 2 5]\<rparr>)
     = Inr ([sample_pose 1 0, sample_pose 1 1, sample_pose 1 2, blank_pose], 3,
            Poll_swap \<lparr>m_NextRawSkeleton = Some 0, m_RawSkeleton = None\<rparr>
              (pending_world \<lparr>skeletons = [sample_skeleton 1 3, sample_skeleton 2 5]\<rparr>))"
proof -
  have h1: "s_Instance (pending_world \<lparr>skeletons = [sample_skeleton 1 3, sample_skeleton 2 5]\<rparr>)
     = Some \<lparr>m_NextRawSkeleton = Some 0, m_RawSkeleton = None\<rparr>"
    by (simp add: pending_world_def)
  from poll_status [OF h1 sample_poll_4] h1 sample_poll_4 show ?thesis by simp
qed

section \<open>Polling without a new publish\<close>

lemma poll_slot_empty_after:
  "s_Instance w = Some b \<Longrightarrow> poll sdk (Some buf) bs (Some c) w = Inr (st, buf', cnt, w') \<Longrightarrow>
   \<exists>b'. s_Instance w' = Some b' \<and> m_NextRawSkeleton b' = None"
  by (auto simp: poll_def Poll_swap_instance split: sum.splits prod.splits dest!: Poll_world)

lemma poll_repeat_empty:
  "s_Instance w = Some b \<Longrightarrow> m_NextRawSkeleton b = None \<Longrightarrow>
   poll_repeat sdk buf bs n w = replicate n (Inr (- 2, Some buf, Some 0))"
proof (induction n arbitrary: w b)
  case 0
  show ?case by simp
next
  case (Suc n)
  have p: "poll sdk (Some buf) bs (Some 0) w = Inr (- 2, Some buf, Some 0, Poll_swap b w)"
    using Suc.prems by (rule poll_empty_slot)
  have "poll_repeat sdk buf bs n (Poll_swap b w) = replicate n (Inr (- 2, Some buf, Some 0))"
    by (rule Suc.IH [of _ "\<lparr>m_NextRawSkeleton = None, m_RawSkeleton = m_NextRawSkeleton b\<rparr>"])
       (simp_all add: Poll_swap_instance)
  with p show ?case by simp
qed

text \<open>
  C8: once a poll with valid arguments has returned on an initialized bridge (the first
  claim), any number \<open>n\<close> of further polls with no publish in between all answer
  \<open>-2\<close> with count 0 and leave the buffer as the first poll left it, whatever the
  source and the declared capacity of the later calls.
\<close>

theorem poll_again_no_data:
  assumes "s_Instance w = Some b"
      and "poll sdk (Some buf) buffer_size (Some c) w = Inr (st, Some buf1, cnt, w1)"
  shows "poll_repeat sdk' buf1 buffer_size' n w1 = replicate n (Inr (- 2, Some buf1, Some 0))"
proof -
  obtain b' where "s_Instance w1 = Some b'" "m_NextRawSkeleton b' = None"
    using poll_slot_empty_after [OF assms] by blast
  then show ?thesis by (rule poll_repeat_empty)
qed

theorem poll_again_no_data_witness:
  "s_Instance (pending_world \<lparr>skeletons = [sample_skeleton 1 3, sample_skeleton 2 5]\<rparr>)
     = Some \<lparr>m_NextRawSkeleton = Some 0, m_RawSkeleton = None\<rparr>
   \<and> poll sample_sdk (Some (replicate 4 blank_pose)) 4 (Some 0)
        (pending_world \<lparr>skeletons = [sample_skeleton 1 3, sample_skeleton 2 5]\<rparr>)
     = Inr (0, Some [sample_pose 1 0, sample_pose 1 1, sample_pose 1 2, blank_pose], Some 3,
            Poll_swap \<lparr>m_NextRawSkeleton = Some 0, m_RawSkeleton = None\<rparr>
              (pending_world \<lparr>skeletons = [sample_skeleton 1 3, sample_skeleton 2 5]\<rparr>))
   \<and> poll_repeat sample_sdk [sample_pose 1 0, sample_pose 1 1, sample_pose 1 2, blank_pose] 4 2
        (Poll_swap \<lparr>m_NextRawSkeleton = Some 0, m_RawSkeleton = None\<rparr>
           (pending_world \<lparr>skeletons = [sample_skeleton 1 3, sample_skeleton 2 5]\<rparr>))
     = [Inr (- 2, Some [sample_pose 1 0, sample_pose 1 1, sample_pose 1 2, blank_pose], Some 0),
        Inr (- 2, Some [sample_pose 1 0, sample_pose 1 1, sample_pose 1 2, blank_pose], Some 0)]"
proof -
  have h1: "s_Instance (pending_world \<lparr>skeletons = [sample_skeleton 1 3, sample_skeleton 2 5]\<rparr>)
     = Some \<lparr>m_NextRawSkeleton = Some 0, m_RawSkeleton = None\<rparr>"
    by (simp add: pending_world_def)
  have r: "replicate 2 x = [x, x]" for x :: "fault + int \<times> ManusNodePose list option \<times> u32 option"
    by (simp add: numeral_2_eq_2)
  from poll_again_no_data [OF h1 sample_poll_4, of sample_sdk 4 2] h1 sample_poll_4
  show ?thesis by (simp only: r simp_thms)
qed

section \<open>The flattening loops\<close>

lemma unat_succ: "unat (bi :: u32) < k \<Longrightarrow> k < 2 ^ 32 \<Longrightarrow> unat (bi + 1) = Suc (unat bi)"
  by (simp add: unat_word_ariths)

text \<open>
  A run of the inner loop that returns has written the cells from \<open>buffer_index\<close> up
  to the new index, one per node, and no other; the index did not wrap.
\<close>

lemma node_loop_Inr:
  "node_loop g ni nds n j buf bi = Inr (buf', bi') \<Longrightarrow> j \<le> n \<Longrightarrow>
   unat bi \<le> length buf \<Longrightarrow> length buf < 2 ^ 32 \<Longrightarrow>
   length buf' = length buf \<and> unat bi' = unat bi + (n - j) \<and> unat bi' \<le> length buf \<and>
   (\<forall>i. i < unat bi \<or> unat bi' \<le> i \<longrightarrow> buf' ! i = buf ! i)"
proof (induction g ni nds n j buf bi rule: node_loop.induct)
  case (1 g ni nds n j buf bi)
  show ?case
  proof (cases "j < n")
    case False
    with "1.prems" show ?thesis by (simp add: node_loop.simps)
  next
    case True
    from True "1.prems"(1) have r: "\<not> length nds \<le> j" "\<not> length buf \<le> unat bi"
      by (auto simp: node_loop.simps split: if_splits)
    let ?buf1 = "buf[unat bi := node_pose g (ni j) (nds ! j)]"
    have rec: "node_loop g ni nds n (Suc j) ?buf1 (bi + 1) = Inr (buf', bi')"
      using True r "1.prems"(1) by (simp add: node_loop.simps)
    have u: "unat (bi + 1) = Suc (unat bi)"
      using r(2) "1.prems"(4) by (intro unat_succ [of _ "length buf"]) simp_all
    have ih: "length buf' = length ?buf1 \<and> unat bi' = unat (bi + 1) + (n - Suc j) \<and>
        unat bi' \<le> length ?buf1 \<and>
        (\<forall>i. i < unat (bi + 1) \<or> unat bi' \<le> i \<longrightarrow> buf' ! i = ?buf1 ! i)"
      using "1.IH" [OF True r rec] True r(2) "1.prems"(4) u by simp
    show ?thesis using ih u True by auto
  qed
qed

lemma skeleton_loop_Inr:
  "skeleton_loop sdk bs sks buf bi = Inr (buf', bi') \<Longrightarrow>
   unat bi \<le> length buf \<Longrightarrow> length buf < 2 ^ 32 \<Longrightarrow>
   length buf' = length buf \<and> unat bi \<le> unat bi' \<and> unat bi' \<le> length buf \<and>
   (\<forall>i. i < unat bi \<or> unat bi' \<le> i \<longrightarrow> buf' ! i = buf ! i)"
proof (induction sks arbitrary: buf bi)
  case Nil
  then show ?case by simp
next
  case (Cons sk rest)
  let ?g = "gloveId (info sk)" and ?n = "nodesCount (info sk)"
  show ?case
  proof (cases "bi + ?n > bs")
    case True
    with Cons.prems show ?thesis by (simp add: Let_def)
  next
    case fits: False
    obtain rc ni where lk: "CoreSdk_GetRawSkeletonNodeInfoArray sdk ?g ?n = (rc, ni)"
      by (cases "CoreSdk_GetRawSkeletonNodeInfoArray sdk ?g ?n")
    show ?thesis
    proof (cases "rc = SDKReturnCode_Success")
      case False
      with fits lk Cons.prems(1) have "skeleton_loop sdk bs rest buf bi = Inr (buf', bi')"
        by (simp add: Let_def)
      from Cons.IH [OF this Cons.prems(2,3)] show ?thesis .
    next
      case True
      with fits lk Cons.prems(1) obtain buf1 bi1 where
        nl: "node_loop ?g ni (nodes sk) (unat ?n) 0 buf bi = Inr (buf1, bi1)" and
        rest: "skeleton_loop sdk bs rest buf1 bi1 = Inr (buf', bi')"
        by (auto simp: Let_def split: sum.splits)
      from node_loop_Inr [OF nl _ Cons.prems(2,3)]
      have a: "length buf1 = length buf" "unat bi1 = unat bi + unat ?n" "unat bi1 \<le> length buf"
        "\<forall>i. i < unat bi \<or> unat bi1 \<le> i \<longrightarrow> buf1 ! i = buf ! i" by simp_all
      from Cons.IH [OF rest] a Cons.prems(3)
      have b: "length buf' = length buf1" "unat bi1 \<le> unat bi'" "unat bi' \<le> length buf1"
        "\<forall>i. i < unat bi1 \<or> unat bi' \<le> i \<longrightarrow> buf' ! i = buf1 ! i" by simp_all
      show ?thesis using a b by auto
    qed
  qed
qed

lemma Poll_flatten_Inr:
  assumes "Poll_flatten sdk buf bs c = Inr (buf', n)" "length buf < 2 ^ 32"
  shows "length buf' = length buf \<and> unat n \<le> length buf \<and>
         (\<forall>i. unat n \<le> i \<longrightarrow> buf' ! i = buf ! i)"
proof (cases "length (skeletons c) = 0")
  case True
  with assms show ?thesis by (simp add: Poll_flatten_def)
next
  case False
  with assms(1) have
    "skeleton_loop sdk bs (take (unat (of_nat (length (skeletons c)) :: u32)) (skeletons c)) buf 0
       = Inr (buf', n)"
    by (simp add: Poll_flatten_def Let_def)
  from skeleton_loop_Inr [OF this _ assms(2)] show ?thesis by simp
qed

text \<open>
  On an array of fewer than \<open>2 ^ 32\<close> records, whatever capacity is declared, a poll
  that returns keeps the length of the array and leaves every entry from the reported
  count on as it was: the index cannot wrap without a write past the array.
\<close>

lemma poll_frame_below_wrap:
  assumes "poll sdk (Some buf) buffer_size (Some c) w = Inr (st, Some buf', Some n, w')"
      and "length buf < 2 ^ 32"
  shows "length buf' = length buf \<and> (\<forall>i. unat n \<le> i \<longrightarrow> buf' ! i = buf ! i)"
proof (cases "s_Instance w")
  case None
  with assms(1) show ?thesis by (simp add: poll_def)
next
  case (Some b)
  with assms(1) obtain w2 where P: "Poll sdk buf buffer_size b w = Inr (buf', n, w2)"
    by (auto simp: poll_def split: sum.splits)
  show ?thesis
  proof (cases "claimed (Poll_swap b w)")
    case (Inl f)
    with P show ?thesis by (simp add: Poll_def Let_def)
  next
    case (Inr r)
    show ?thesis
    proof (cases r)
      case None
      with Inr P show ?thesis by (simp add: Poll_def Let_def)
    next
      case (Some ac)
      obtain a col where ac: "ac = (a, col)" by (cases ac)
      from P Inr Some ac have "Poll_flatten sdk buf buffer_size col = Inr (buf', n)"
        by (auto simp: Poll_def Let_def split: sum.splits)
      from Poll_flatten_Inr [OF this assms(2)] show ?thesis by simp
    qed
  qed
qed

section \<open>Flattening when nothing overflows\<close>

lemma node_loop_eq:
  "n \<le> length nds \<Longrightarrow> j \<le> n \<Longrightarrow> unat bi \<le> length buf \<Longrightarrow> length buf < 2 ^ 32 \<Longrightarrow>
   node_loop g ni nds n j buf bi =
     (if unat bi + (n - j) \<le> length buf
      then Inr (take (unat bi) buf @ map (\<lambda>k. node_pose g (ni k) (nds ! k)) [j..<n]
                  @ drop (unat bi + (n - j)) buf, bi + of_nat (n - j))
      else Inl WriteOutOfBounds)"
proof (induction g ni nds n j buf bi rule: node_loop.induct)
  case (1 g ni nds n j buf bi)
  show ?case
  proof (cases "j < n")
    case False
    with "1.prems" show ?thesis by (simp add: node_loop.simps)
  next
    case True
    note jn = True
    show ?thesis
    proof (cases "length buf \<le> unat bi")
      case True
      with jn "1.prems" show ?thesis by (simp add: node_loop.simps)
    next
      case False
      let ?p = "node_pose g (ni j) (nds ! j)"
      let ?buf1 = "buf[unat bi := ?p]"
      have r: "\<not> length nds \<le> j" using jn "1.prems"(1) by simp
      have u: "unat (bi + 1) = Suc (unat bi)"
        using False "1.prems"(4) by (intro unat_succ [of _ "length buf"]) simp_all
      have ih: "node_loop g ni nds n (Suc j) ?buf1 (bi + 1) =
         (if unat (bi + 1) + (n - Suc j) \<le> length ?buf1
          then Inr (take (unat (bi + 1)) ?buf1 @ map (\<lambda>k. node_pose g (ni k) (nds ! k)) [Suc j..<n]
                  @ drop (unat (bi + 1) + (n - Suc j)) ?buf1, bi + 1 + of_nat (n - Suc j))
          else Inl WriteOutOfBounds)"
        using "1.IH"[OF jn r False] "1.prems" jn False u by simp
      have unf: "node_loop g ni nds n j buf bi = node_loop g ni nds n (Suc j) ?buf1 (bi + 1)"
        using jn r False by (simp add: node_loop.simps)
      have t: "take (Suc (unat bi)) ?buf1 = take (unat bi) buf @ [?p]"
        using False by (simp add: take_Suc_conv_app_nth)
      have s: "Suc (unat bi) + (n - Suc j) = unat bi + (n - j)" using jn by simp
      have d: "drop (unat bi + (n - j)) ?buf1 = drop (unat bi + (n - j)) buf"
        using jn by simp
      have m: "[j..<n] = j # [Suc j..<n]" using jn by (simp add: upt_conv_Cons)
      have w: "bi + 1 + of_nat (n - Suc j) = bi + of_nat (n - j)"
        using jn by (simp add: Suc_diff_Suc[symmetric] del: Suc_diff_Suc)
      show ?thesis unfolding unf ih u s by (simp add: t d m w)
    qed
  qed
qed

text \<open>
  The same run when the array is long enough for the index to reach \<open>2 ^ 32\<close>: every
  write is inside the array and the last increment wraps the index to 0.
\<close>

lemma node_loop_run:
  "n \<le> length nds \<Longrightarrow> j \<le> n \<Longrightarrow> unat bi + (n - j) \<le> length buf \<Longrightarrow>
   unat bi + (n - j) \<le> 2 ^ 32 \<Longrightarrow>
   node_loop g ni nds n j buf bi =
     Inr (take (unat bi) buf @ map (\<lambda>k. node_pose g (ni k) (nds ! k)) [j..<n]
            @ drop (unat bi + (n - j)) buf, bi + of_nat (n - j))"
proof (induction g ni nds n j buf bi rule: node_loop.induct)
  case (1 g ni nds n j buf bi)
  show ?case
  proof (cases "j < n")
    case False
    with "1.prems" show ?thesis by (simp add: node_loop.simps)
  next
    case True
    let ?p = "node_pose g (ni j) (nds ! j)"
    let ?buf1 = "buf[unat bi := ?p]"
    have r: "\<not> length nds \<le> j" using True "1.prems"(1) by simp
    have w: "\<not> length buf \<le> unat bi" using True "1.prems"(3) by simp
    have unf: "node_loop g ni nds n j buf bi = node_loop g ni nds n (Suc j) ?buf1 (bi + 1)"
      using True r w by (simp add: node_loop.simps)
    have t: "take (Suc (unat bi)) ?buf1 = take (unat bi) buf @ [?p]"
      using w by (simp add: take_Suc_conv_app_nth)
    have m: "[j..<n] = j # [Suc j..<n]" using True by (simp add: upt_conv_Cons)
    have wd: "bi + 1 + of_nat (n - Suc j) = bi + of_nat (n - j)"
      using True by (simp add: Suc_diff_Suc[symmetric] del: Suc_diff_Suc)
    show ?thesis
    proof (cases "Suc j = n")
      case last: True
      have "node_loop g ni nds n (Suc j) ?buf1 (bi + 1) = Inr (?buf1, bi + 1)"
        using last by (simp add: node_loop.simps)
      moreover have "?buf1 = take (unat bi) buf @ [?p] @ drop (unat bi + 1) buf"
        using w by (simp add: upd_conv_take_nth_drop)
      moreover have "n - j = 1" using last by simp
      ultimately show ?thesis unfolding unf using last m by simp
    next
      case False
      then have more: "Suc j < n" using True by simp
      have u: "unat (bi + 1) = Suc (unat bi)"
        using more "1.prems"(4) by (intro unat_succ [of _ "2 ^ 32 - 1"]) simp_all
      have s: "Suc (unat bi) + (n - Suc j) = unat bi + (n - j)" using True by simp
      have ih: "node_loop g ni nds n (Suc j) ?buf1 (bi + 1) =
          Inr (take (unat (bi + 1)) ?buf1 @ map (\<lambda>k. node_pose g (ni k) (nds ! k)) [Suc j..<n]
                  @ drop (unat (bi + 1) + (n - Suc j)) ?buf1, bi + 1 + of_nat (n - Suc j))"
        using "1.IH"[OF True r w] "1.prems" True u s by simp
      have d: "drop (unat bi + (n - j)) ?buf1 = drop (unat bi + (n - j)) buf"
        using True by simp
      show ?thesis unfolding unf ih u s by (simp add: t d m wd)
    qed
  qed
qed

lemma skeleton_poses_nth:
  "skeleton_poses sdk sk =
     map (\<lambda>k. node_pose (gloveId (info sk))
                 (snd (CoreSdk_GetRawSkeletonNodeInfoArray sdk (gloveId (info sk)) (nodesCount (info sk))) k)
                 (nodes sk ! k)) [0..<length (nodes sk)]"
  by (rule nth_equalityI) (simp_all add: skeleton_poses_def nth_enumerate_eq)

lemma length_skeleton_poses [simp]: "length (skeleton_poses sdk sk) = length (nodes sk)"
  by (simp add: skeleton_poses_def)

lemma skeleton_loop_break:
  "bi + nodesCount (info sk) > bs \<Longrightarrow> skeleton_loop sdk bs (sk # rest) buf bi = Inr (buf, bi)"
  by (simp add: Let_def)

lemma skeleton_loop_skip:
  "\<not> bi + nodesCount (info sk) > bs \<Longrightarrow> \<not> lookup_ok sdk sk \<Longrightarrow>
   skeleton_loop sdk bs (sk # rest) buf bi = skeleton_loop sdk bs rest buf bi"
  by (auto simp: Let_def lookup_ok_def split: prod.splits)

lemma skeleton_loop_emit:
  assumes "wf_skeleton sk" "lookup_ok sdk sk"
    and "unat bi + unat (nodesCount (info sk)) \<le> unat bs" "length buf = unat bs"
  shows "skeleton_loop sdk bs (sk # rest) buf bi =
     skeleton_loop sdk bs rest
       (take (unat bi) buf @ skeleton_poses sdk sk @ drop (unat bi + unat (nodesCount (info sk))) buf)
       (bi + nodesCount (info sk))"
proof -
  let ?n = "nodesCount (info sk)" and ?g = "gloveId (info sk)"
  have lt: "length buf < 2 ^ 32" using assms(4) unsigned_less [of bs, where 'a = nat] by simp
  have nw: "unat (bi + ?n) = unat bi + unat ?n"
    using assms(3) lt assms(4) by (simp add: unat_word_ariths)
  have fits: "\<not> bi + ?n > bs" using nw assms(3) by (simp add: word_less_nat_alt)
  obtain rc ni where lk: "CoreSdk_GetRawSkeletonNodeInfoArray sdk ?g ?n = (rc, ni)"
    by (cases "CoreSdk_GetRawSkeletonNodeInfoArray sdk ?g ?n")
  have rc: "rc = SDKReturnCode_Success" using assms(2) lk by (simp add: lookup_ok_def)
  have len: "length (nodes sk) = unat ?n" using assms(1) by (simp add: wf_skeleton_def)
  have nl: "node_loop ?g ni (nodes sk) (unat ?n) 0 buf bi =
      Inr (take (unat bi) buf @ skeleton_poses sdk sk @ drop (unat bi + unat ?n) buf, bi + ?n)"
    using assms(3,4) lt len
    by (subst node_loop_eq) (simp_all add: skeleton_poses_nth lk)
  show ?thesis using fits lk rc nl by (simp add: Let_def)
qed


lemma Poll_flatten_loop:
  "length (skeletons c) < 2 ^ 32 \<Longrightarrow>
   Poll_flatten sdk buf bs c = skeleton_loop sdk bs (skeletons c) buf 0"
proof -
  assume l: "length (skeletons c) < 2 ^ 32"
  have u: "unat (of_nat (length (skeletons c)) :: u32) = length (skeletons c)"
    using l by (simp add: unat_of_nat take_bit_nat_eq_self)
  show ?thesis
  proof (cases "skeletons c = []")
    case True
    then show ?thesis by (simp add: Poll_flatten_def)
  next
    case False
    then show ?thesis by (simp add: Poll_flatten_def Let_def u del: skeleton_loop.simps)
  qed
qed

lemma flatten_spec_length: "wr \<le> C \<Longrightarrow> list_all wf_skeleton sks \<Longrightarrow> wr + length (flatten_spec sdk C sks wr) \<le> C"
proof (induction sks arbitrary: wr)
  case Nil then show ?case by simp
next
  case (Cons sk rest)
  show ?case
  proof (cases "wr + unat (nodesCount (info sk)) > C")
    case True with Cons.prems show ?thesis by simp
  next
    case False
    then have le: "wr + unat (nodesCount (info sk)) \<le> C" by simp
    from Cons.prems(2) have wf0: "wf_skeleton sk" and wfr: "list_all wf_skeleton rest" by simp_all
    have wf: "length (nodes sk) = unat (nodesCount (info sk))" "list_all wf_skeleton rest"
      using wf0 wfr by (simp_all add: wf_skeleton_def)
    show ?thesis
    proof (cases "lookup_ok sdk sk")
      case True
      with False Cons.IH [OF le wf(2)] wf(1) show ?thesis by simp
    next
      case no: False
      with False Cons.IH [OF Cons.prems(1) wf(2)] show ?thesis by simp
    qed
  qed
qed

lemma skeleton_loop_spec:
  "list_all wf_skeleton sks \<Longrightarrow> length buf = unat bs \<Longrightarrow> unat bi \<le> unat bs \<Longrightarrow>
   unat bi + total_nodes sks < 2 ^ 32 \<Longrightarrow>
   skeleton_loop sdk bs sks buf bi =
     Inr (take (unat bi) buf @ flatten_spec sdk (unat bs) sks (unat bi)
            @ drop (unat bi + length (flatten_spec sdk (unat bs) sks (unat bi))) buf,
          bi + of_nat (length (flatten_spec sdk (unat bs) sks (unat bi))))"
proof (induction sks arbitrary: buf bi)
  case Nil
  then show ?case by simp
next
  case (Cons sk rest)
  let ?nc = "nodesCount (info sk)"
  let ?n = "unat ?nc"
  from Cons.prems(1) have wf: "wf_skeleton sk" "list_all wf_skeleton rest" by simp_all
  have len: "length (nodes sk) = ?n" using wf(1) by (simp add: wf_skeleton_def)
  from Cons.prems(4) have tot: "unat bi + ?n + total_nodes rest < 2 ^ 32"
    by (simp add: total_nodes_def)
  then have nw: "unat (bi + ?nc) = unat bi + ?n" by (simp add: unat_word_ariths)
  show ?case
  proof (cases "unat bi + ?n > unat bs")
    case True
    then have "bi + ?nc > bs" using nw by (simp add: word_less_nat_alt)
    then have "skeleton_loop sdk bs (sk # rest) buf bi = Inr (buf, bi)" by (rule skeleton_loop_break)
    with True show ?thesis by simp
  next
    case False
    then have fit: "\<not> bi + ?nc > bs" using nw by (simp add: word_less_nat_alt)
    show ?thesis
    proof (cases "lookup_ok sdk sk")
      case no: False
      have t: "unat bi + total_nodes rest < 2 ^ 32" using tot by simp
      show ?thesis
        unfolding skeleton_loop_skip [OF fit no] Cons.IH [OF wf(2) Cons.prems(2,3) t]
        using False no by simp
    next
      case True
      let ?buf1 = "take (unat bi) buf @ skeleton_poses sdk sk @ drop (unat bi + ?n) buf"
      let ?F = "flatten_spec sdk (unat bs) rest (unat bi + ?n)"
      have le: "unat bi + ?n \<le> unat bs" using False by simp
      have l1: "length ?buf1 = unat bs" using Cons.prems(2,3) le len by simp
      have b1: "unat (bi + ?nc) \<le> unat bs" using nw le by simp
      have t: "unat (bi + ?nc) + total_nodes rest < 2 ^ 32" using tot nw by simp
      have la: "length (take (unat bi) buf) = unat bi" using Cons.prems(2,3) by simp
      have lp: "length (skeleton_poses sdk sk) = ?n" using len by simp
      have tk: "take (unat bi + ?n) ?buf1 = take (unat bi) buf @ skeleton_poses sdk sk"
        using la lp by simp
      have dr: "drop (unat bi + ?n + length ?F) ?buf1 = drop (unat bi + (?n + length ?F)) buf"
        using la lp by (simp add: ac_simps)
      have wd: "bi + ?nc + of_nat (length ?F) = bi + of_nat (?n + length ?F)" by simp
      have fs: "flatten_spec sdk (unat bs) (sk # rest) (unat bi) = skeleton_poses sdk sk @ ?F"
        using False True by simp
      have lf: "length (skeleton_poses sdk sk @ ?F) = ?n + length ?F" using lp by simp
      have "skeleton_loop sdk bs (sk # rest) buf bi =
          Inr (take (unat bi + ?n) ?buf1 @ ?F @ drop (unat bi + ?n + length ?F) ?buf1,
               bi + ?nc + of_nat (length ?F))"
        by (simp only: skeleton_loop_emit [OF wf(1) True le Cons.prems(2)]
            Cons.IH [OF wf(2) l1 b1 t] nw)
      also have "\<dots> = Inr (take (unat bi) buf @ (skeleton_poses sdk sk @ ?F)
                          @ drop (unat bi + (?n + length ?F)) buf, bi + of_nat (?n + length ?F))"
        by (simp only: tk dr wd append_assoc)
      finally show ?thesis by (simp only: fs lf)
    qed
  qed
qed

lemma flatten_spec_all:
  "list_all (lookup_ok sdk) sks \<Longrightarrow> wr + total_nodes sks \<le> C \<Longrightarrow>
   flatten_spec sdk C sks wr = concat (map (skeleton_poses sdk) sks)"
  by (induction sks arbitrary: wr) (auto simp: total_nodes_def)


lemma giant_simps:
  "gloveId (info (giant_skeleton g)) = g"
  "nodesCount (info (giant_skeleton g)) = 4294967295"
  "length (nodes (giant_skeleton g)) = 4294967295"
  by (simp_all add: giant_skeleton_def)

lemma giant_wf: "wf_skeleton (giant_skeleton g)"
  by (simp add: wf_skeleton_def giant_simps)

lemma sample_wf: "n < 2 ^ 32 \<Longrightarrow> wf_skeleton (sample_skeleton g n)"
  by (simp add: wf_skeleton_def sample_skeleton_def unat_of_nat take_bit_nat_eq_self)



lemma sample_lookup: "lookup_ok sample_sdk sk = (gloveId (info sk) \<noteq> 9)"
  by (simp add: lookup_ok_def sample_sdk_def)

text \<open>
  The code refines the specification's flattening on every well-formed snapshot with
  fewer than \<open>2 ^ 32\<close> nodes in total: the records of \<open>flatten_spec\<close> are written from
  index 0 on, the rest of the buffer is kept, and their number is the count. On such
  snapshots the count is at most the capacity, and when the total node count fits and
  every lookup succeeds, all records are written in skeleton-then-node order.
\<close>

lemma Poll_flatten_refines_spec:
  assumes "wf_collection c" "length buf = unat bs" "total_nodes (skeletons c) < 2 ^ 32"
  shows "Poll_flatten sdk buf bs c =
           Inr (flatten_spec sdk (unat bs) (skeletons c) 0
                  @ drop (length (flatten_spec sdk (unat bs) (skeletons c) 0)) buf,
                of_nat (length (flatten_spec sdk (unat bs) (skeletons c) 0)))"
    and "length (flatten_spec sdk (unat bs) (skeletons c) 0) \<le> unat bs"
proof -
  from assms(1) have l: "length (skeletons c) < 2 ^ 32" and w: "list_all wf_skeleton (skeletons c)"
    by (simp_all add: wf_collection_def)
  show "Poll_flatten sdk buf bs c =
           Inr (flatten_spec sdk (unat bs) (skeletons c) 0
                  @ drop (length (flatten_spec sdk (unat bs) (skeletons c) 0)) buf,
                of_nat (length (flatten_spec sdk (unat bs) (skeletons c) 0)))"
    using skeleton_loop_spec [OF w assms(2), of 0 sdk] assms(3)
    by (simp add: Poll_flatten_loop [OF l])
  show "length (flatten_spec sdk (unat bs) (skeletons c) 0) \<le> unat bs"
    using flatten_spec_length [OF _ w, of 0 "unat bs" sdk] by simp
qed

lemma Poll_flatten_all_written:
  assumes "wf_collection c" "length buf = unat bs" "list_all (lookup_ok sdk) (skeletons c)"
      and "total_nodes (skeletons c) \<le> unat bs"
  shows "Poll_flatten sdk buf bs c =
           Inr (concat (map (skeleton_poses sdk) (skeletons c))
                  @ drop (length (concat (map (skeleton_poses sdk) (skeletons c)))) buf,
                of_nat (length (concat (map (skeleton_poses sdk) (skeletons c)))))"
proof -
  have "total_nodes (skeletons c) < 2 ^ 32"
    using assms(4) unsigned_less [of bs, where 'a = nat] by simp
  from Poll_flatten_refines_spec(1) [OF assms(1,2) this, of sdk]
  show ?thesis using flatten_spec_all [OF assms(3), of 0 "unat bs"] assms(4) by simp
qed

section \<open>The capacity test\<close>

text \<open>
  C3, at a failing input: a well-formed snapshot of a one-node skeleton followed by a
  skeleton of \<open>2 ^ 32 - 1\<close> nodes, with capacity 1 and a buffer of one record. For the
  second skeleton the test computes \<open>1 + 4294967295 = 0\<close> in 32 bits, \<open>0 > 1\<close> is
  false, and the loop writes past the end of the buffer.
\<close>

theorem flatten_overflow_writes_past_capacity:
  "wf_collection \<lparr>skeletons = [sample_skeleton 1 1, giant_skeleton 2]\<rparr> \<and>
   Poll_flatten sample_sdk [blank_pose] 1 \<lparr>skeletons = [sample_skeleton 1 1, giant_skeleton 2]\<rparr>
     = Inl WriteOutOfBounds"
proof -
  have a: "skeleton_loop sample_sdk 1 [sample_skeleton 1 1, giant_skeleton 2] [blank_pose] 0
       = skeleton_loop sample_sdk 1 [giant_skeleton 2] [sample_pose 1 0] 1"
    by (simp add: sample_skeleton_def sample_sdk_def node_loop.simps node_pose_def
        sample_node_def sample_pose_def)
  have b: "node_loop 2 ni (nodes (giant_skeleton 2)) 4294967295 0 [sample_pose 1 0] 1
       = Inl WriteOutOfBounds" for ni
    by (subst node_loop.simps) (simp add: giant_simps)
  have c: "skeleton_loop sample_sdk 1 [giant_skeleton 2] [sample_pose 1 0] 1 = Inl WriteOutOfBounds"
    by (simp add: giant_simps b sample_sdk_def word_less_nat_alt)
  have w: "wf_collection \<lparr>skeletons = [sample_skeleton 1 1, giant_skeleton 2]\<rparr>"
    by (simp add: wf_collection_def giant_wf sample_wf)
  have "Poll_flatten sample_sdk [blank_pose] 1 \<lparr>skeletons = [sample_skeleton 1 1, giant_skeleton 2]\<rparr>
     = Inl WriteOutOfBounds"
    by (subst Poll_flatten_loop) (simp_all only: a c ClientRawSkeletonCollection.simps, simp)
  with w show ?thesis ..
qed

text \<open>
  C4, at a failing input: skeletons of 2 nodes, of \<open>2 ^ 32 - 1\<close> nodes (its metadata
  lookup fails) and of 1 node, with capacity 4. The two records written plus the
  second skeleton's node count exceed the capacity, yet the 32-bit sum is 1, the test
  passes, the skeleton is passed over for its failed lookup, and the third skeleton is
  emitted after it: the count is 3, not 2.
\<close>

theorem flatten_overflow_emits_later_skeleton:
  "wf_collection \<lparr>skeletons = [sample_skeleton 1 2, giant_skeleton 9, sample_skeleton 3 1]\<rparr> \<and>
   Poll_flatten sample_sdk (replicate 4 blank_pose) 4
      \<lparr>skeletons = [sample_skeleton 1 2, giant_skeleton 9, sample_skeleton 3 1]\<rparr>
     = Inr ([sample_pose 1 0, sample_pose 1 1, sample_pose 3 0, blank_pose], 3)"
proof -
  have r: "replicate 4 x = [x, x, x, x]" for x :: ManusNodePose
    by (simp add: numeral_eq_Suc)
  have a: "skeleton_loop sample_sdk 4 (sample_skeleton 1 2 # rest) (replicate 4 blank_pose) 0
       = skeleton_loop sample_sdk 4 rest
              [sample_pose 1 0, sample_pose 1 1, blank_pose, blank_pose] 2" for rest
    by (simp add: sample_skeleton_def sample_sdk_def node_loop.simps node_pose_def
        sample_node_def sample_pose_def r)
  have b: "skeleton_loop sample_sdk 4 [giant_skeleton 9, sample_skeleton 3 1] buf 2
       = skeleton_loop sample_sdk 4 [sample_skeleton 3 1] buf 2" for buf
    by (simp add: giant_simps sample_sdk_def word_less_nat_alt)
  have c: "skeleton_loop sample_sdk 4 [sample_skeleton 3 1]
              [sample_pose 1 0, sample_pose 1 1, blank_pose, blank_pose] 2
       = Inr ([sample_pose 1 0, sample_pose 1 1, sample_pose 3 0, blank_pose], 3)"
    by code_simp
  have w: "wf_collection \<lparr>skeletons = [sample_skeleton 1 2, giant_skeleton 9, sample_skeleton 3 1]\<rparr>"
    by (simp add: wf_collection_def giant_wf sample_wf)
  have "Poll_flatten sample_sdk (replicate 4 blank_pose) 4
      \<lparr>skeletons = [sample_skeleton 1 2, giant_skeleton 9, sample_skeleton 3 1]\<rparr>
     = Inr ([sample_pose 1 0, sample_pose 1 1, sample_pose 3 0, blank_pose], 3)"
    by (subst Poll_flatten_loop) (simp_all only: a b c ClientRawSkeletonCollection.simps, simp)
  with w show ?thesis ..
qed

lemma huge_buffer_simps:
  "length huge_buffer = 4294967296" "huge_buffer ! 0 = blank_pose"
  by (simp_all add: huge_buffer_def)

lemma wrap_step1:
  "skeleton_loop sample_sdk 1 (sample_skeleton 1 1 # rest) huge_buffer 0
     = skeleton_loop sample_sdk 1 rest (huge_buffer[0 := sample_pose 1 0]) 1"
  by (simp add: sample_skeleton_def sample_sdk_def node_loop.simps node_pose_def
        sample_node_def sample_pose_def huge_buffer_simps)

lemma skeleton_loop_step:
  assumes "\<not> bi + nodesCount (info sk) > bs" "lookup_ok sdk sk"
    and "node_loop (gloveId (info sk))
           (snd (CoreSdk_GetRawSkeletonNodeInfoArray sdk (gloveId (info sk)) (nodesCount (info sk))))
           (nodes sk) (unat (nodesCount (info sk))) 0 buf bi = Inr (buf', bi')"
  shows "skeleton_loop sdk bs (sk # rest) buf bi = skeleton_loop sdk bs rest buf' bi'"
  using assms by (auto simp: Let_def lookup_ok_def split: prod.splits)

lemma wrap_step2:
  "\<exists>tl. skeleton_loop sample_sdk 1 [giant_skeleton 2] (huge_buffer[0 := sample_pose 1 0]) 1
     = Inr (sample_pose 1 0 # tl, 0)"
proof -
  let ?buf1 = "huge_buffer[0 := sample_pose 1 0]"
  let ?ni = "snd (CoreSdk_GetRawSkeletonNodeInfoArray sample_sdk 2 4294967295)"
  define tl where "tl = map (\<lambda>k. node_pose 2 (?ni k) (nodes (giant_skeleton 2) ! k)) [0..<4294967295]
            @ drop (unat (1 :: u32) + (4294967295 - 0)) ?buf1"
  have nl: "node_loop 2 ?ni (nodes (giant_skeleton 2)) 4294967295 0 ?buf1 1 =
     Inr (take (unat (1 :: u32)) ?buf1 @ map (\<lambda>k. node_pose 2 (?ni k) (nodes (giant_skeleton 2) ! k)) [0..<4294967295]
            @ drop (unat (1 :: u32) + (4294967295 - 0)) ?buf1, 1 + of_nat (4294967295 - 0))"
    by (rule node_loop_run) (simp_all add: giant_simps huge_buffer_simps)
  have tk: "take (unat (1 :: u32)) ?buf1 = [sample_pose 1 0]"
    by (simp add: take_Suc_conv_app_nth huge_buffer_simps)
  have z: "(1 :: u32) + of_nat (4294967295 - 0) = 0" by simp
  have un: "unat (4294967295 :: u32) = 4294967295" by simp
  have nl2: "node_loop 2 ?ni (nodes (giant_skeleton 2)) 4294967295 0 ?buf1 1
      = Inr (sample_pose 1 0 # tl, 0)"
    by (simp only: nl tk z tl_def append_Cons append_Nil)
  have chk: "\<not> (1 :: u32) + nodesCount (info (giant_skeleton 2)) > 1"
    by (simp add: giant_simps word_less_nat_alt)
  have ok: "lookup_ok sample_sdk (giant_skeleton 2)"
    by (simp add: sample_lookup giant_simps)
  have nl3: "node_loop (gloveId (info (giant_skeleton 2)))
           (snd (CoreSdk_GetRawSkeletonNodeInfoArray sample_sdk (gloveId (info (giant_skeleton 2)))
                   (nodesCount (info (giant_skeleton 2)))))
           (nodes (giant_skeleton 2)) (unat (nodesCount (info (giant_skeleton 2)))) 0 ?buf1 1
         = Inr (sample_pose 1 0 # tl, 0)"
    by (simp only: giant_simps un nl2)
  have "skeleton_loop sample_sdk 1 [giant_skeleton 2] ?buf1 1 = Inr (sample_pose 1 0 # tl, 0)"
    by (simp only: skeleton_loop_step [OF chk ok nl3] skeleton_loop.simps(1))
  then show ?thesis ..
qed

lemma wrap_flatten:
  "\<exists>tl. Poll_flatten sample_sdk huge_buffer 1 \<lparr>skeletons = [sample_skeleton 1 1, giant_skeleton 2]\<rparr>
     = Inr (sample_pose 1 0 # tl, 0)"
proof -
  from wrap_step2 obtain tl where
    "skeleton_loop sample_sdk 1 [giant_skeleton 2] (huge_buffer[0 := sample_pose 1 0]) 1
       = Inr (sample_pose 1 0 # tl, 0)" ..
  then have "Poll_flatten sample_sdk huge_buffer 1 \<lparr>skeletons = [sample_skeleton 1 1, giant_skeleton 2]\<rparr>
     = Inr (sample_pose 1 0 # tl, 0)"
    by (subst Poll_flatten_loop) (simp_all only: wrap_step1 ClientRawSkeletonCollection.simps, simp)
  then show ?thesis ..
qed

text \<open>
  C10, at a failing input: the caller's array has \<open>2 ^ 32\<close> records and the declared
  capacity is 1; the pending snapshot has a one-node skeleton and a skeleton of
  \<open>2 ^ 32 - 1\<close> nodes. The capacity test passes for the second skeleton because
  \<open>1 + 4294967295\<close> is 0 in 32 bits, all \<open>2 ^ 32\<close> records are written and the
  index wraps to 0. The poll reports status \<open>-2\<close> and count 0, yet entry 0, inside the
  declared capacity and not below the reported count, no longer holds what it held
  before the call.
\<close>

theorem poll_overflow_overwrites_beyond_count:
  "map_sum id (\<lambda>(st, b, c, w). (st, c, map_option (\<lambda>buf. buf ! 0) b))
     (poll sample_sdk (Some huge_buffer) 1 (Some 0)
        (pending_world \<lparr>skeletons = [sample_skeleton 1 1, giant_skeleton 2]\<rparr>))
     = Inr (- 2, Some 0, Some (sample_pose 1 0))
   \<and> huge_buffer ! 0 = blank_pose \<and> sample_pose 1 0 \<noteq> blank_pose
   \<and> length huge_buffer = 4294967296"
proof -
  from wrap_flatten obtain tl where
    f: "Poll_flatten sample_sdk huge_buffer 1 \<lparr>skeletons = [sample_skeleton 1 1, giant_skeleton 2]\<rparr>
     = Inr (sample_pose 1 0 # tl, 0)" ..
  have "map_sum id (\<lambda>(st, b, c, w). (st, c, map_option (\<lambda>buf. buf ! 0) b))
     (poll sample_sdk (Some huge_buffer) 1 (Some 0)
        (pending_world \<lparr>skeletons = [sample_skeleton 1 1, giant_skeleton 2]\<rparr>))
     = Inr (- 2, Some 0, Some (sample_pose 1 0))"
    by (simp only: poll_pending_world [OF f, of 0]) simp
  moreover have "sample_pose 1 0 \<noteq> blank_pose" by (simp add: sample_pose_def blank_pose_def)
  ultimately show ?thesis by (simp add: huge_buffer_simps)
qed


section \<open>A failed metadata lookup\<close>

text \<open>
  C7, as stated, at a concrete input: the first skeleton has 5 nodes and a failing
  lookup, the second has 3 nodes and a succeeding lookup, and the capacity is 4. The
  capacity test comes before the lookup, so the loop is left at the first skeleton and
  nothing is written, although the second skeleton would fit.
\<close>

theorem flatten_failed_lookup_too_large:
  "Poll_flatten sample_sdk (replicate 4 blank_pose) 4
      \<lparr>skeletons = [sample_skeleton 9 5, sample_skeleton 2 3]\<rparr> = Inr (replicate 4 blank_pose, 0)"
  by code_simp

text \<open>
  C7 (amended): during flattening, a skeleton that passes the capacity test and whose
  metadata lookup fails is passed over whole, and flattening continues with the next
  skeleton. For a snapshot of one skeleton whose lookup fails and one well-formed
  skeleton whose lookup succeeds, in either order, each with a node count of at most
  the capacity, the output is exactly the successful skeleton's records, from index 0,
  and the count is its node count (greater than zero when it has a node).
\<close>

theorem flatten_skips_failed_lookup:
  assumes "wf_skeleton good" "lookup_ok sdk good" "\<not> lookup_ok sdk bad"
      and "length buf = unat buffer_size"
      and "unat (nodesCount (info good)) \<le> unat buffer_size"
      and "unat (nodesCount (info bad)) \<le> unat buffer_size"
  shows "Poll_flatten sdk buf buffer_size \<lparr>skeletons = [bad, good]\<rparr>
           = Inr (skeleton_poses sdk good @ drop (unat (nodesCount (info good))) buf,
                  nodesCount (info good))
       \<and> Poll_flatten sdk buf buffer_size \<lparr>skeletons = [good, bad]\<rparr>
           = Inr (skeleton_poses sdk good @ drop (unat (nodesCount (info good))) buf,
                  nodesCount (info good))
       \<and> (\<forall>rest b bi. \<not> bi + nodesCount (info bad) > buffer_size \<longrightarrow>
            skeleton_loop sdk buffer_size (bad # rest) b bi = skeleton_loop sdk buffer_size rest b bi)"
proof -
  let ?out = "skeleton_poses sdk good @ drop (unat (nodesCount (info good))) buf"
  have fb: "\<not> 0 + nodesCount (info bad) > buffer_size"
    using assms(6) by (simp add: word_less_nat_alt)
  have e: "skeleton_loop sdk buffer_size (good # rest) buf 0
       = skeleton_loop sdk buffer_size rest ?out (nodesCount (info good))" for rest
    using skeleton_loop_emit [OF assms(1,2) _ assms(4), of 0 rest] assms(5) by simp
  have 1: "skeleton_loop sdk buffer_size [bad, good] buf 0 = Inr (?out, nodesCount (info good))"
    by (simp only: skeleton_loop_skip [OF fb assms(3)] e skeleton_loop.simps(1))
  have 2: "skeleton_loop sdk buffer_size [good, bad] buf 0 = Inr (?out, nodesCount (info good))"
  proof (cases "nodesCount (info good) + nodesCount (info bad) > buffer_size")
    case True
    show ?thesis by (simp only: e skeleton_loop_break [OF True])
  next
    case False
    show ?thesis by (simp only: e skeleton_loop_skip [OF False assms(3)] skeleton_loop.simps(1))
  qed
  have 3: "\<forall>rest b bi. \<not> bi + nodesCount (info bad) > buffer_size \<longrightarrow>
            skeleton_loop sdk buffer_size (bad # rest) b bi = skeleton_loop sdk buffer_size rest b bi"
    using skeleton_loop_skip [OF _ assms(3)] by blast
  show ?thesis using 1 2 3 by (simp add: Poll_flatten_loop del: skeleton_loop.simps)
qed

theorem flatten_skips_failed_lookup_witness:
  "wf_skeleton (sample_skeleton 2 5) \<and> lookup_ok sample_sdk (sample_skeleton 2 5) \<and>
   \<not> lookup_ok sample_sdk (sample_skeleton 9 3) \<and>
   length (replicate 8 blank_pose) = unat (8 :: u32) \<and>
   unat (nodesCount (info (sample_skeleton 2 5))) \<le> unat (8 :: u32) \<and>
   unat (nodesCount (info (sample_skeleton 9 3))) \<le> unat (8 :: u32) \<and>
   Poll_flatten sample_sdk (replicate 8 blank_pose) 8
      \<lparr>skeletons = [sample_skeleton 9 3, sample_skeleton 2 5]\<rparr>
     = Inr ([sample_pose 2 0, sample_pose 2 1, sample_pose 2 2, sample_pose 2 3, sample_pose 2 4,
             blank_pose, blank_pose, blank_pose], 5)"
proof -
  have h1: "wf_skeleton (sample_skeleton 2 5)" by (simp add: sample_wf)
  have h2: "lookup_ok sample_sdk (sample_skeleton 2 5)"
    by (simp add: sample_lookup sample_skeleton_def)
  have h3: "\<not> lookup_ok sample_sdk (sample_skeleton 9 3)"
    by (simp add: sample_lookup sample_skeleton_def)
  have h4: "length (replicate 8 blank_pose) = unat (8 :: u32)" by simp
  have h5: "unat (nodesCount (info (sample_skeleton 2 5))) \<le> unat (8 :: u32)"
    by (simp add: sample_skeleton_def)
  have h6: "unat (nodesCount (info (sample_skeleton 9 3))) \<le> unat (8 :: u32)"
    by (simp add: sample_skeleton_def)
  have v: "skeleton_poses sample_sdk (sample_skeleton 2 5)
             @ drop (unat (5 :: u32)) (replicate 8 blank_pose)
     = [sample_pose 2 0, sample_pose 2 1, sample_pose 2 2, sample_pose 2 3, sample_pose 2 4,
        blank_pose, blank_pose, blank_pose]"
    by code_simp
  have n: "nodesCount (info (sample_skeleton 2 5)) = 5" by (simp add: sample_skeleton_def)
  from flatten_skips_failed_lookup [OF h1 h2 h3 h4 h5 h6] h1 h2 h3 h4 h5 h6 show ?thesis
    by (simp only: v n simp_thms)
qed


section \<open>Frame assembly\<close>

lemma length_resize [simp]: "length (resize d n xs) = n"
  by (simp add: resize_def)

lemma length_sdk_fill [simp]: "length (sdk_fill f xs) = length xs"
  by (simp add: sdk_fill_def)

lemma assemble_skeleton_wf: "wf_skeleton (assemble_skeleton sdk p i sk)"
  by (simp add: wf_skeleton_def assemble_skeleton_def Let_def)

lemma assemble_loop_eq:
  "i \<le> length sks \<Longrightarrow> length sks = unat (skeletonsCount p) \<Longrightarrow>
   assemble_loop sdk p i sks =
     take i sks @ map (\<lambda>k. assemble_skeleton sdk p (of_nat k) (sks ! k)) [i..<length sks]"
proof (induction sdk p i sks rule: assemble_loop.induct)
  case (1 sdk p i sks)
  show ?case
  proof (cases "i < unat (skeletonsCount p)")
    case False
    with "1.prems" show ?thesis by (simp add: assemble_loop.simps)
  next
    case True
    let ?a = "assemble_skeleton sdk p (of_nat i) (sks ! i)"
    have il: "i < length sks" using True "1.prems"(2) by simp
    have ih: "assemble_loop sdk p (Suc i) (sks[i := ?a]) =
        take (Suc i) (sks[i := ?a])
          @ map (\<lambda>k. assemble_skeleton sdk p (of_nat k) (sks[i := ?a] ! k)) [Suc i..<length sks]"
      using "1.IH"[OF True] il "1.prems"(2) by simp
    have t: "take (Suc i) (sks[i := ?a]) = take i sks @ [?a]"
      using il by (simp add: take_Suc_conv_app_nth)
    have m: "map (\<lambda>k. assemble_skeleton sdk p (of_nat k) (sks[i := ?a] ! k)) [Suc i..<length sks]
        = map (\<lambda>k. assemble_skeleton sdk p (of_nat k) (sks ! k)) [Suc i..<length sks]"
      by (rule map_cong) simp_all
    have u: "[i..<length sks] = i # [Suc i..<length sks]" using il by (simp add: upt_conv_Cons)
    have "assemble_loop sdk p i sks = assemble_loop sdk p (Suc i) (sks[i := ?a])"
      using True by (subst assemble_loop.simps) simp
    then show ?thesis by (simp add: ih t m u)
  qed
qed

lemma assemble_eq:
  "skeletons (assemble sdk p) =
     map (\<lambda>k. assemble_skeleton sdk p (of_nat k) zero_skeleton) [0..<unat (skeletonsCount p)]"
proof -
  let ?n = "unat (skeletonsCount p)"
  have r: "resize zero_skeleton ?n [] = replicate ?n zero_skeleton" by (simp add: resize_def)
  have "assemble_loop sdk p 0 (replicate ?n zero_skeleton) =
      map (\<lambda>k. assemble_skeleton sdk p (of_nat k) (replicate ?n zero_skeleton ! k)) [0..<?n]"
    using assemble_loop_eq [of 0 "replicate ?n zero_skeleton" p sdk] by simp
  also have "\<dots> = map (\<lambda>k. assemble_skeleton sdk p (of_nat k) zero_skeleton) [0..<?n]"
    by (rule map_cong) simp_all
  finally show ?thesis by (simp add: assemble_def r)
qed

lemma assemble_wf: "wf_collection (assemble sdk p)"
  using unsigned_less [of "skeletonsCount p", where 'a = nat]
  by (simp add: wf_collection_def assemble_eq list_all_iff assemble_skeleton_wf)

lemma assemble_skeleton_codes:
  "(\<And>i inf. snd (CoreSdk_GetRawSkeletonInfo sdk' i inf) = snd (CoreSdk_GetRawSkeletonInfo sdk i inf)) \<Longrightarrow>
   (\<And>i n. snd (CoreSdk_GetRawSkeletonData sdk' i n) = snd (CoreSdk_GetRawSkeletonData sdk i n)) \<Longrightarrow>
   assemble_skeleton sdk' p i sk = assemble_skeleton sdk p i sk"
  by (simp add: assemble_skeleton_def)

lemma flaky_assemble:
  "assemble flaky_sdk \<lparr>skeletonsCount = 2, stream_publishTime = 5\<rparr>
     = \<lparr>skeletons = [\<lparr>info = \<lparr>gloveId = 0, nodesCount = 0, publishTime = 5\<rparr>, nodes = []\<rparr>,
                     \<lparr>info = \<lparr>gloveId = 2, nodesCount = 5, publishTime = 5\<rparr>,
                      nodes = map sample_node [0..<5]\<rparr>]\<rparr>"
  by code_simp

text \<open>
  C5, at a failing input: a stream of two skeletons where both fetches for skeleton 0
  fail and write nothing. The return codes are dropped, nothing is recorded, and the
  frame still holds an entry for skeleton 0 (glove 0, no nodes, stamped with the
  publish time) before the entry of skeleton 1: the affected skeleton is assembled
  into the frame.
\<close>

theorem assemble_keeps_failed_skeleton:
  "fst (CoreSdk_GetRawSkeletonInfo flaky_sdk 0 (info zero_skeleton)) = SDKReturnCode_Error
   \<and> fst (CoreSdk_GetRawSkeletonData flaky_sdk 0 0) = SDKReturnCode_Error
   \<and> assemble flaky_sdk \<lparr>skeletonsCount = 2, stream_publishTime = 5\<rparr>
     = \<lparr>skeletons = [\<lparr>info = \<lparr>gloveId = 0, nodesCount = 0, publishTime = 5\<rparr>, nodes = []\<rparr>,
                     \<lparr>info = \<lparr>gloveId = 2, nodesCount = 5, publishTime = 5\<rparr>,
                      nodes = map sample_node [0..<5]\<rparr>]\<rparr>"
  by (simp add: flaky_assemble) (simp add: flaky_sdk_def)

text \<open>
  What the assembler does for every source: the frame has exactly \<open>skeletonsCount\<close>
  entries, entry \<open>i\<close> is what the two fetches for index \<open>i\<close> make of a zeroed
  skeleton, whatever happened at the other indices, every entry has as many nodes as
  its info declares, and two sources that write the same data build the same frame
  whatever codes they return.
\<close>

lemma assemble_keeps_every_skeleton:
  "length (skeletons (assemble sdk p)) = unat (skeletonsCount p)
   \<and> (\<forall>i. i < unat (skeletonsCount p) \<longrightarrow>
         skeletons (assemble sdk p) ! i = assemble_skeleton sdk p (of_nat i) zero_skeleton
         \<and> wf_skeleton (skeletons (assemble sdk p) ! i))
   \<and> (\<forall>sdk' :: SDK. (\<forall>i inf. snd (CoreSdk_GetRawSkeletonInfo sdk' i inf) = snd (CoreSdk_GetRawSkeletonInfo sdk i inf))
           \<and> (\<forall>i n. snd (CoreSdk_GetRawSkeletonData sdk' i n) = snd (CoreSdk_GetRawSkeletonData sdk i n))
         \<longrightarrow> assemble sdk' p = assemble sdk p)"
proof -
  have a: "length (skeletons (assemble sdk p)) = unat (skeletonsCount p)"
    by (simp add: assemble_eq)
  have b: "\<forall>i. i < unat (skeletonsCount p) \<longrightarrow>
         skeletons (assemble sdk p) ! i = assemble_skeleton sdk p (of_nat i) zero_skeleton
         \<and> wf_skeleton (skeletons (assemble sdk p) ! i)"
    by (simp add: assemble_eq assemble_skeleton_wf)
  have c: "\<forall>sdk' :: SDK. (\<forall>i inf. snd (CoreSdk_GetRawSkeletonInfo sdk' i inf) = snd (CoreSdk_GetRawSkeletonInfo sdk i inf))
           \<and> (\<forall>i n. snd (CoreSdk_GetRawSkeletonData sdk' i n) = snd (CoreSdk_GetRawSkeletonData sdk i n))
         \<longrightarrow> assemble sdk' p = assemble sdk p"
  proof (intro allI impI, elim conjE)
    fix sdk' :: SDK
    assume A: "\<forall>i inf. snd (CoreSdk_GetRawSkeletonInfo sdk' i inf) = snd (CoreSdk_GetRawSkeletonInfo sdk i inf)"
       and B: "\<forall>i n. snd (CoreSdk_GetRawSkeletonData sdk' i n) = snd (CoreSdk_GetRawSkeletonData sdk i n)"
    have "assemble_skeleton sdk' p i sk = assemble_skeleton sdk p i sk" for i sk
      using A B by (intro assemble_skeleton_codes) simp_all
    then have "skeletons (assemble sdk' p) = skeletons (assemble sdk p)"
      by (simp only: assemble_eq)
    then show "assemble sdk' p = assemble sdk p"
      by (rule ClientRawSkeletonCollection.equality) simp
  qed
  show ?thesis by (intro conjI) (rule a, rule b, rule c)
qed

lemma assemble_keeps_every_skeleton_sample:
  "(1 :: nat) < unat (skeletonsCount \<lparr>skeletonsCount = 2, stream_publishTime = 5\<rparr>)
   \<and> length (skeletons (assemble flaky_sdk \<lparr>skeletonsCount = 2, stream_publishTime = 5\<rparr>)) = 2
   \<and> skeletons (assemble flaky_sdk \<lparr>skeletonsCount = 2, stream_publishTime = 5\<rparr>) ! 1
       = assemble_skeleton flaky_sdk \<lparr>skeletonsCount = 2, stream_publishTime = 5\<rparr> 1 zero_skeleton
   \<and> assemble (report_success flaky_sdk) \<lparr>skeletonsCount = 2, stream_publishTime = 5\<rparr>
       = assemble flaky_sdk \<lparr>skeletonsCount = 2, stream_publishTime = 5\<rparr>"
proof -
  let ?p = "\<lparr>skeletonsCount = 2, stream_publishTime = 5\<rparr>"
  note t = assemble_keeps_every_skeleton [of flaky_sdk ?p]
  have h: "(1 :: nat) < unat (skeletonsCount ?p)" by simp
  have a: "length (skeletons (assemble flaky_sdk ?p)) = 2"
    using t [THEN conjunct1] by simp
  have b: "skeletons (assemble flaky_sdk ?p) ! 1 = assemble_skeleton flaky_sdk ?p 1 zero_skeleton"
    using t [THEN conjunct2, THEN conjunct1, rule_format, OF h] by simp
  have hc: "(\<forall>i inf. snd (CoreSdk_GetRawSkeletonInfo (report_success flaky_sdk) i inf)
                 = snd (CoreSdk_GetRawSkeletonInfo flaky_sdk i inf))
            \<and> (\<forall>i n. snd (CoreSdk_GetRawSkeletonData (report_success flaky_sdk) i n)
                 = snd (CoreSdk_GetRawSkeletonData flaky_sdk i n))"
    by (simp add: report_success_def)
  have c: "assemble (report_success flaky_sdk) ?p = assemble flaky_sdk ?p"
    by (rule t [THEN conjunct2, THEN conjunct2, rule_format, OF hc])
  show ?thesis by (intro conjI) (rule h, rule a, rule b, rule c)
qed

section \<open>Publish and claim\<close>















section \<open>Creation and destruction of snapshots\<close>

text \<open>
  While the bridge lives, every snapshot created is deleted at most once, and one not
  deleted yet is one of the two the member pointers hold.
\<close>

lemma heap_accounted_initial: "heap_accounted initial_world"
  by (simp add: heap_accounted_def initial_world_def Bridge_ctor_def)

lemma heap_accounted_step: "heap_accounted w \<Longrightarrow> heap_accounted (slot_step op w)"
proof -
  assume inv: "heap_accounted w"
  then obtain b where b: "s_Instance w = Some b"
    by (auto simp: heap_accounted_def split: option.splits)
  from inv b have d: "\<forall>a. a \<in> dom (heap w) \<longleftrightarrow> m_NextRawSkeleton b = Some a \<or> m_RawSkeleton b = Some a"
    and ne: "m_NextRawSkeleton b = None \<or> m_NextRawSkeleton b \<noteq> m_RawSkeleton b"
    and di: "distinct (deleted w)"
    and dl: "\<forall>a. a \<in> set (deleted w) \<longrightarrow> a \<notin> dom (heap w)"
    and fr: "\<forall>a. a < fresh w \<longleftrightarrow> a \<in> set (deleted w) \<or> a \<in> dom (heap w)"
    by (auto simp: heap_accounted_def)
  from fr have f1: "fresh w \<notin> set (deleted w)" and f2: "fresh w \<notin> dom (heap w)"
    using less_irrefl by blast+
  from f2 d have f3: "m_NextRawSkeleton b \<noteq> Some (fresh w)" "m_RawSkeleton b \<noteq> Some (fresh w)"
    by blast+
  show ?thesis
  proof (cases op)
    case (publish sdk p)
    show ?thesis
    proof (cases "m_NextRawSkeleton b")
      case None
      with b d ne di dl fr f1 f2 f3 show ?thesis
        unfolding publish
        by (auto simp: heap_accounted_def OnRawSkeletonStreamCallback_def new_collection_def
            Let_def less_Suc_eq)
    next
      case (Some a)
      with b d ne di dl fr f1 f2 f3 show ?thesis
        unfolding publish
        by (auto simp: heap_accounted_def OnRawSkeletonStreamCallback_def new_collection_def
            delete_ptr_def Let_def less_Suc_eq)
    qed
  next
    case claim
    show ?thesis
    proof (cases "m_RawSkeleton b")
      case None
      with b d ne di dl fr show ?thesis
        unfolding claim
        by (auto simp: heap_accounted_def Poll_swap_def delete_ptr_def Let_def)
    next
      case (Some a)
      with b d ne di dl fr show ?thesis
        unfolding claim
        by (auto simp: heap_accounted_def Poll_swap_def delete_ptr_def Let_def)
    qed
  qed
qed

lemma heap_accounted_exec: "heap_accounted w \<Longrightarrow> heap_accounted (slot_exec ops w)"
  by (induction ops arbitrary: w) (simp_all add: heap_accounted_step del: slot_step.simps)

lemma snapshots_accounted: "heap_accounted (slot_exec ops initial_world)"
  by (rule heap_accounted_exec [OF heap_accounted_initial])

text \<open>
  C2, at a failing input: the callback publishes one snapshot (address 0) and the
  bridge is destroyed. The destructor only clears \<open>s_Instance\<close>: the snapshot is
  still on the heap, nothing points to it any more, and it was deleted zero times. The
  same holds for a snapshot that a poll had claimed before the destruction.
\<close>

theorem destructor_leaks_snapshot:
  "s_Instance (Bridge_dtor (slot_exec [publish sample_sdk \<lparr>skeletonsCount = 2, stream_publishTime = 5\<rparr>] initial_world)) = None
   \<and> heap (Bridge_dtor (slot_exec [publish sample_sdk \<lparr>skeletonsCount = 2, stream_publishTime = 5\<rparr>] initial_world)) 0
       = Some (assemble sample_sdk \<lparr>skeletonsCount = 2, stream_publishTime = 5\<rparr>)
   \<and> deleted (Bridge_dtor (slot_exec [publish sample_sdk \<lparr>skeletonsCount = 2, stream_publishTime = 5\<rparr>] initial_world)) = []
   \<and> heap (Bridge_dtor (slot_exec [publish sample_sdk \<lparr>skeletonsCount = 2, stream_publishTime = 5\<rparr>, claim] initial_world)) 0
       = Some (assemble sample_sdk \<lparr>skeletonsCount = 2, stream_publishTime = 5\<rparr>)
   \<and> deleted (Bridge_dtor (slot_exec [publish sample_sdk \<lparr>skeletonsCount = 2, stream_publishTime = 5\<rparr>, claim] initial_world)) = []"
  by (simp add: Bridge_dtor_def OnRawSkeletonStreamCallback_def new_collection_def initial_world_def
        Bridge_ctor_def delete_ptr_def Poll_swap_def Let_def)

end
